theory Spec2Isabelle
  imports Complex_Main "HOL-Library.List_Lexorder" "HOL-Library.Char_ord"
begin

section \<open>JavaScript values used by the recorder\<close>

text \<open>
  The recorder is TypeScript running on one cooperative thread. Numbers that the code
  treats as counters, indices, status codes and millisecond clock readings are integers
  here (\<open>nat\<close> or \<open>int\<close>); the Chrome DevTools Protocol clock readings, which are
  seconds with a fractional part, are rationals. The integers are far below \<open>2^53\<close>
  in the running program, where the arithmetic of doubles is exact on them; where the
  code multiplies or subtracts a reading with a fractional part, the result is rounded
  as a double rounds it. Strings are byte lists; the keys the program builds are ASCII.
\<close>

subsection \<open>Numbers: rounding to a double\<close>

text \<open>
  A JavaScript number is an IEEE 754 double: 53 significant bits, the exponent of the
  last bit at least \<open>-1074\<close>. An arithmetic operation returns the exact result rounded
  to the nearest double, a tie to the one whose last bit is even. \<open>bitLength\<close> is the
  number of binary digits of a positive integer, \<open>binade x\<close> the \<open>k\<close> with
  \<open>2 ^ k \<le> x < 2 ^ (k + 1)\<close>, and \<open>ulpExponent x\<close> the exponent of the last of the
  53 bits. A result beyond the largest double is an infinity in JavaScript; here the
  rounded value stays finite, which compares with a finite number in the same way.
\<close>

definition roundTiesToEven :: "rat \<Rightarrow> int" where
  "roundTiesToEven y =
     (let f = \<lfloor>y\<rfloor>; d = y - of_int f
      in if d < 1 / 2 then f else if 1 / 2 < d then f + 1 else if even f then f else f + 1)"

function bitLength :: "int \<Rightarrow> int" where
  "bitLength n = (if n \<le> 0 then 0 else 1 + bitLength (n div 2))"
  by auto
termination
  by (relation "measure nat") auto

declare bitLength.simps [simp del]

definition binade :: "rat \<Rightarrow> int" where
  "binade x =
     (let (p, q) = quotient_of x;
          k = bitLength p - bitLength q
      in if 2 powi k \<le> x then k else k - 1)"

definition ulpExponent :: "rat \<Rightarrow> int" where
  "ulpExponent x = max (binade x - 52) (- 1074)"

definition roundPositive :: "rat \<Rightarrow> rat" where
  "roundPositive x = of_int (roundTiesToEven (x / 2 powi ulpExponent x)) * 2 powi ulpExponent x"

definition roundToDouble :: "rat \<Rightarrow> rat" where
  "roundToDouble x = (if x = 0 then 0 else if 0 < x then roundPositive x else - roundPositive (- x))"

subsection \<open>Template literals: printing a number\<close>

definition digitChar :: "nat \<Rightarrow> char" where
  "digitChar d = char_of (48 + d)"

function numberToString :: "nat \<Rightarrow> string" where
  "numberToString n =
     (if n < 10 then [digitChar n] else numberToString (n div 10) @ [digitChar (n mod 10)])"
  by pat_completeness auto
termination
  by (relation "measure id") auto

declare numberToString.simps [simp del]

text \<open>Printing an \<open>int\<close> (a tab identifier or a clock reading in a session id).\<close>

definition intToString :: "int \<Rightarrow> string" where
  "intToString i = (if i < 0 then CHR ''-'' # numberToString (nat (- i)) else numberToString (nat i))"

subsection \<open>\<open>parseInt(s, 10)\<close>\<close>

definition isDigit :: "char \<Rightarrow> bool" where
  "isDigit c = (48 \<le> (of_char c :: nat) \<and> (of_char c :: nat) \<le> 57)"

text \<open>The ASCII members of the white space that \<open>parseInt\<close> skips.\<close>

definition isWhiteSpace :: "char \<Rightarrow> bool" where
  "isWhiteSpace c = ((of_char c :: nat) \<in> {9, 10, 11, 12, 13, 32})"

definition digitsValue :: "string \<Rightarrow> int" where
  "digitsValue ds = foldl (\<lambda>a c. 10 * a + (int (of_char c) - 48)) 0 ds"

text \<open>\<open>None\<close> is \<open>NaN\<close>: no digit after the optional sign.\<close>

definition parseInt10 :: "string \<Rightarrow> int option" where
  "parseInt10 s =
     (let t = dropWhile isWhiteSpace s;
          neg = (t \<noteq> [] \<and> hd t = CHR ''-'');
          u = (if t \<noteq> [] \<and> (hd t = CHR ''-'' \<or> hd t = CHR ''+'') then tl t else t);
          ds = takeWhile isDigit u
      in if ds = [] then None
         else Some (if neg then - digitsValue ds else digitsValue ds))"

subsection \<open>\<open>String(key).split(':').pop() || '0'\<close>\<close>

definition lastSegment :: "string \<Rightarrow> string" where
  "lastSegment s = rev (takeWhile (\<lambda>c. c \<noteq> CHR '':'') (rev s))"

definition keyIndex :: "string \<Rightarrow> int option" where
  "keyIndex key = parseInt10 (if lastSegment key = [] then ''0'' else lastSegment key)"

subsection \<open>\<open>Array.prototype.sort\<close> with a comparator\<close>

text \<open>
  The comparator of the storage module returns \<open>indexA - indexB\<close>, which is \<open>NaN\<close>
  when either index is. The sort is stable, and a comparator result that is not
  positive (\<open>NaN\<close> counts as zero) leaves the pair in its order. The model is the stable
  insertion sort; on a comparator that is a total preorder every stable sort returns
  the same list.
\<close>

definition compareIndex :: "string \<Rightarrow> string \<Rightarrow> int option" where
  "compareIndex a b =
     (case (keyIndex a, keyIndex b) of (Some i, Some j) \<Rightarrow> Some (i - j) | _ \<Rightarrow> None)"

definition isPositive :: "int option \<Rightarrow> bool" where
  "isPositive r = (case r of None \<Rightarrow> False | Some d \<Rightarrow> 0 < d)"

fun insertBy :: "('a \<Rightarrow> 'a \<Rightarrow> int option) \<Rightarrow> 'a \<Rightarrow> 'a list \<Rightarrow> 'a list" where
  "insertBy cmp x [] = [x]"
| "insertBy cmp x (y # ys) =
     (if isPositive (cmp x y) then y # insertBy cmp x ys else x # y # ys)"

definition sortBy :: "('a \<Rightarrow> 'a \<Rightarrow> int option) \<Rightarrow> 'a list \<Rightarrow> 'a list" where
  "sortBy cmp xs = foldr (insertBy cmp) xs []"

section \<open>Telemetry records (\<open>types/telemetry\<close>, as \<open>background.ts\<close> builds them)\<close>

type_synonym headers = "(string \<times> string) list"

record NetworkEvent =
  requestId :: string
  url :: string
  n_method :: string
  headers :: headers
  postData :: "string option"
  timestamp :: rat
  wallTime :: rat
  videoTimestamp :: int
  n_status :: int
  statusText :: string
  responseHeaders :: "headers option"
  mimeType :: "string option"

text \<open>\<open>Partial<NetworkEvent>\<close>: what is known when the request is sent; every field optional.\<close>

record PartialNetworkEvent =
  p_requestId :: "string option"
  p_url :: "string option"
  p_method :: "string option"
  p_headers :: "headers option"
  p_postData :: "string option"
  p_timestamp :: "rat option"
  p_wallTime :: "rat option"
  p_videoTimestamp :: "int option"

datatype ConsoleLevel = LevelLog | LevelWarn | LevelError | LevelInfo | LevelDebug

record ConsoleEvent =
  level :: ConsoleLevel
  c_text :: string
  args :: "string option list"
  stackTrace :: "string option"
  c_timestamp :: rat
  c_wallTime :: int
  c_videoTimestamp :: int
  c_url :: "string option"
  lineNumber :: "int option"

record DOMEvent =
  eventType :: string
  selector :: string
  d_timestamp :: int
  d_videoTimestamp :: int
  metadata :: "string option"

record SessionMetadata =
  m_sessionId :: string
  m_tabId :: int
  m_url :: string
  m_title :: string
  startTime :: int
  endTime :: "int option"
  duration :: "int option"

section \<open>\<open>lib/storage.ts\<close>: the key-indexed store\<close>

text \<open>
  \<open>idb-keyval\<close> keeps one object store; \<open>keys()\<close> lists its keys in ascending key
  order, which for strings is the order of their code units. The store is an
  association list kept in that order.
\<close>

datatype idb_value =
    NetworkEvents "NetworkEvent list"
  | ConsoleEvents "ConsoleEvent list"
  | DOMEvents "DOMEvent list"
  | ScreenshotMetadata int int "string option"
  | SessionMetadataValue SessionMetadata
  | SerializedState string
  | BlobValue string

type_synonym idb = "(string \<times> idb_value) list"

fun idb_set :: "string \<Rightarrow> idb_value \<Rightarrow> idb \<Rightarrow> idb" where
  "idb_set k v [] = [(k, v)]"
| "idb_set k v (e # db) =
     (if fst e = k then (k, v) # db
      else if k < fst e then (k, v) # e # db
      else e # idb_set k v db)"

definition idb_get :: "string \<Rightarrow> idb \<Rightarrow> idb_value option" where
  "idb_get k db = map_of db k"

definition idb_keys :: "idb \<Rightarrow> string list" where
  "idb_keys db = map fst db"

definition startsWith :: "string \<Rightarrow> string \<Rightarrow> bool" where
  "startsWith s p = (take (length p) s = p)"

definition networkBatchPrefix :: "string \<Rightarrow> string" where
  "networkBatchPrefix sessionId = sessionId @ '':network:batch:''"

definition consoleBatchPrefix :: "string \<Rightarrow> string" where
  "consoleBatchPrefix sessionId = sessionId @ '':console:batch:''"

definition domBatchPrefix :: "string \<Rightarrow> string" where
  "domBatchPrefix sessionId = sessionId @ '':dom:batch:''"

definition storeNetworkEventBatch :: "string \<Rightarrow> nat \<Rightarrow> NetworkEvent list \<Rightarrow> idb \<Rightarrow> idb" where
  "storeNetworkEventBatch sessionId batchIndex events db =
     idb_set (networkBatchPrefix sessionId @ numberToString batchIndex) (NetworkEvents events) db"

definition storeConsoleEventBatch :: "string \<Rightarrow> nat \<Rightarrow> ConsoleEvent list \<Rightarrow> idb \<Rightarrow> idb" where
  "storeConsoleEventBatch sessionId batchIndex events db =
     idb_set (consoleBatchPrefix sessionId @ numberToString batchIndex) (ConsoleEvents events) db"

definition storeDOMEventBatch :: "string \<Rightarrow> nat \<Rightarrow> DOMEvent list \<Rightarrow> idb \<Rightarrow> idb" where
  "storeDOMEventBatch sessionId batchIndex events db =
     idb_set (domBatchPrefix sessionId @ numberToString batchIndex) (DOMEvents events) db"

text \<open>
  \<open>get<NetworkEvent[]>(key)\<close> is an unchecked cast. Under a network batch key the
  program only ever writes network events; a value of another kind, like a missing one,
  contributes nothing here.
\<close>

definition networkBatchAt :: "idb \<Rightarrow> string \<Rightarrow> NetworkEvent list" where
  "networkBatchAt db key = (case idb_get key db of Some (NetworkEvents batch) \<Rightarrow> batch | _ \<Rightarrow> [])"

definition getNetworkEvents :: "string \<Rightarrow> idb \<Rightarrow> NetworkEvent list" where
  "getNetworkEvents sessionId db =
     (let allKeys = idb_keys db;
          batchKeys = filter (\<lambda>key. startsWith key (networkBatchPrefix sessionId)) allKeys;
          sortedKeys = sortBy compareIndex batchKeys
      in concat (map (networkBatchAt db) sortedKeys))"

text \<open>Storing the batches \<open>bs\<close> under the indices \<open>i, i + 1, ...\<close>, one write each.\<close>

fun storeNetworkEventBatches :: "string \<Rightarrow> nat \<Rightarrow> NetworkEvent list list \<Rightarrow> idb \<Rightarrow> idb" where
  "storeNetworkEventBatches sessionId i [] db = db"
| "storeNetworkEventBatches sessionId i (b # bs) db =
     storeNetworkEventBatches sessionId (Suc i) bs (storeNetworkEventBatch sessionId i b db)"

definition networkBatchKey :: "string \<Rightarrow> nat \<Rightarrow> string" where
  "networkBatchKey sessionId batchIndex = networkBatchPrefix sessionId @ numberToString batchIndex"

section \<open>\<open>lib/sync.ts\<close>: the timestamp synchronizer\<close>

text \<open>
  Modelled from the spec: \<open>lib/sync.ts\<close> is not among the sources; \<open>background.ts\<close>
  imports \<open>calculateVideoTimestamp\<close> and \<open>cdpWallTimeToVideoOffset\<close> from it. The
  spec gives \<open>videoOffset(eventWallClockMs) = eventWallClockMs - T0\<close> and, for a source
  that reports seconds, \<open>videoOffset = round(eventWallClockSeconds * 1000) - T0\<close>, and says
  that the synchronizer never clamps. The argument order is the one of the calls in
  \<open>background.ts\<close>.
\<close>

definition calculateVideoTimestamp :: "int \<Rightarrow> int \<Rightarrow> int" where
  "calculateVideoTimestamp sessionStartTime eventWallClockMs = eventWallClockMs - sessionStartTime"

definition cdpWallTimeToVideoOffset :: "rat \<Rightarrow> int \<Rightarrow> int" where
  "cdpWallTimeToVideoOffset eventWallClockSeconds sessionStartTime =
     round (eventWallClockSeconds * 1000) - sessionStartTime"

section \<open>\<open>entrypoints/background.ts\<close>: the state of the service worker\<close>

datatype Status = Idle | Recording | Stopping | Completed | Error

record SessionState =
  sessionId :: string
  tabId :: int
  status :: Status
  sessionStartTime :: int
  sessionStopTime :: "int option"
  includeAudio :: bool
  includeMicrophone :: bool
  recordingChunkCount :: nat
  screenshotCount :: nat
  networkEventCount :: nat
  consoleEventCount :: nat
  domEventCount :: nat
  debuggerAttached :: bool
  offscreenDocumentActive :: bool
  lastError :: "string option"
  errorRecoverable :: "bool option"

text \<open>
  \<open>doFlushTelemetryBuffers\<close> suspends at each batch write. A suspended flush is the
  write it awaits, the batch index it read before the write, and the events it took
  out of the three buffers when it started.
\<close>

datatype FlushStage = NetworkWrite | ConsoleWrite | DOMWrite

record FlushTask =
  stage :: FlushStage
  batchIndex :: nat
  networkEventsToFlush :: "NetworkEvent list"
  consoleEventsToFlush :: "ConsoleEvent list"
  domEventsToFlush :: "DOMEvent list"

datatype MediaStage = Init | WhileRecording | WhileStopping

text \<open>
  \<open>handleMediaStopped\<close> and \<open>handleMediaError\<close> change the maps again after an
  \<open>await\<close>. A suspended handler is the point where it waits, for a session.
\<close>

datatype Continuation =
    StoppedAwaitsSend string
  | StoppedAwaitsFlush string
  | StoppedAwaitsDetach string
  | ErrorAwaitsFlush string
  | ErrorAwaitsDetach string

text \<open>
  The module-level maps. \<open>sessions\<close> is searched in insertion order by
  \<open>handleStopRecording\<close>, so it is an association list in that order; the other maps
  are only looked up by key. \<open>timers\<close> holds the interval timers that \<open>setInterval\<close>
  created and \<open>clearInterval\<close> has not cleared, each with the session its callback
  flushes. \<open>indexedDB\<close> is the IndexedDB store and \<open>continuations\<close> the suspended handlers.
\<close>

record Background =
  sessions :: "(string \<times> SessionState) list"
  networkEventBuffers :: "string \<rightharpoonup> NetworkEvent list"
  consoleEventBuffers :: "string \<rightharpoonup> ConsoleEvent list"
  domEventBuffers :: "string \<rightharpoonup> DOMEvent list"
  pendingNetworkRequests :: "string \<rightharpoonup> (string \<rightharpoonup> PartialNetworkEvent)"
  flushTimers :: "string \<rightharpoonup> nat"
  timers :: "nat \<rightharpoonup> string"
  nextTimer :: nat
  networkBatchIndices :: "string \<rightharpoonup> nat"
  consoleBatchIndices :: "string \<rightharpoonup> nat"
  domBatchIndices :: "string \<rightharpoonup> nat"
  flushInProgress :: "string \<rightharpoonup> FlushTask"
  tabIdToSessionId :: "int \<rightharpoonup> string"
  indexedDB :: idb
  continuations :: "Continuation list"

definition BUFFER_FLUSH_SIZE :: nat where
  "BUFFER_FLUSH_SIZE = 50"

definition SENSITIVE_HEADERS :: "string list" where
  "SENSITIVE_HEADERS =
     [''authorization'', ''cookie'', ''set-cookie'', ''proxy-authorization'',
      ''x-api-key'', ''x-auth-token'']"

definition toLowerCase :: "string \<Rightarrow> string" where
  "toLowerCase s =
     map (\<lambda>c. if 65 \<le> (of_char c :: nat) \<and> (of_char c :: nat) \<le> 90
              then char_of ((of_char c :: nat) + 32) else c) s"

text \<open>
  \<open>sanitized[key] = value\<close> on a plain object: a string assigned to the key
  \<open>__proto__\<close> makes no entry.
\<close>

definition sanitizeHeaders :: "headers \<Rightarrow> headers" where
  "sanitizeHeaders hs =
     map (\<lambda>(key, value).
            if toLowerCase key \<in> set SENSITIVE_HEADERS then (key, ''[REDACTED]'')
            else (key, value))
       (filter (\<lambda>(key, value). key \<noteq> ''__proto__'') hs)"

subsection \<open>The \<open>sessions\<close> map\<close>

definition getSession :: "Background \<Rightarrow> string \<Rightarrow> SessionState option" where
  "getSession s sid = map_of (sessions s) sid"

text \<open>\<open>sessions.set\<close>: a key that is present keeps its place, a new key goes last.\<close>

fun setEntry :: "string \<Rightarrow> SessionState \<Rightarrow> (string \<times> SessionState) list
    \<Rightarrow> (string \<times> SessionState) list" where
  "setEntry sid v [] = [(sid, v)]"
| "setEntry sid v (e # es) = (if fst e = sid then (sid, v) # es else e # setEntry sid v es)"

text \<open>An assignment to a field of the session object that the map holds.\<close>

definition updateSession :: "string \<Rightarrow> (SessionState \<Rightarrow> SessionState) \<Rightarrow> Background \<Rightarrow> Background" where
  "updateSession sid f s =
     s\<lparr>sessions := map (\<lambda>e. if fst e = sid then (fst e, f (snd e)) else e) (sessions s)\<rparr>"

subsection \<open>Flushing the telemetry buffers\<close>

text \<open>\<open>buffer && buffer.length > 0 ? buffer.splice(0, buffer.length) : []\<close>: what is taken.\<close>

definition takenFrom :: "'a list option \<Rightarrow> 'a list" where
  "takenFrom buffer = (case buffer of None \<Rightarrow> [] | Some events \<Rightarrow> events)"

text \<open>What \<open>splice\<close> leaves in the map: the same array, now empty.\<close>

definition spliced :: "(string \<rightharpoonup> 'a list) \<Rightarrow> string \<Rightarrow> (string \<rightharpoonup> 'a list)" where
  "spliced buffers sid = (case buffers sid of None \<Rightarrow> buffers | Some events \<Rightarrow> buffers(sid \<mapsto> []))"

text \<open>\<open>indices.get(sessionId) || 0\<close>\<close>

definition indexOrZero :: "nat option \<Rightarrow> nat" where
  "indexOrZero i = (case i of None \<Rightarrow> 0 | Some n \<Rightarrow> n)"

text \<open>
  The sweep at the end of a flush. \<open>wallTime\<close> is in seconds; an entry without one
  counts as captured at time zero. The product and the difference are numbers, each
  rounded to a double; \<open>now\<close> is the integer that \<open>Date.now()\<close> returns.
\<close>

definition ttlExpired :: "int \<Rightarrow> PartialNetworkEvent \<Rightarrow> bool" where
  "ttlExpired now partialEvent =
     (let eventTimeMs =
            roundToDouble ((case p_wallTime partialEvent of None \<Rightarrow> 0 | Some w \<Rightarrow> w) * 1000)
      in roundToDouble (of_int now - eventTimeMs) > 120000)"

definition ttlCleanup :: "string \<Rightarrow> int \<Rightarrow> Background \<Rightarrow> Background" where
  "ttlCleanup sid now s =
     (case pendingNetworkRequests s sid of
        None \<Rightarrow> s
      | Some pendingMap \<Rightarrow>
          s\<lparr>pendingNetworkRequests := (pendingNetworkRequests s)(sid \<mapsto>
               (\<lambda>requestId. case pendingMap requestId of
                                None \<Rightarrow> None
                              | Some partialEvent \<Rightarrow>
                                  if ttlExpired now partialEvent then None else Some partialEvent))\<rparr>)"

subsection \<open>The tails of \<open>handleMediaStopped\<close> and \<open>handleMediaError\<close>\<close>

text \<open>The deletes that both handlers run: buffers, pending table, batch indices, reverse index.\<close>

definition cleanupTelemetry :: "string \<Rightarrow> Background \<Rightarrow> Background" where
  "cleanupTelemetry sid s =
     s\<lparr>networkEventBuffers := (networkEventBuffers s)(sid := None),
       consoleEventBuffers := (consoleEventBuffers s)(sid := None),
       domEventBuffers := (domEventBuffers s)(sid := None),
       pendingNetworkRequests := (pendingNetworkRequests s)(sid := None),
       networkBatchIndices := (networkBatchIndices s)(sid := None),
       consoleBatchIndices := (consoleBatchIndices s)(sid := None),
       domBatchIndices := (domBatchIndices s)(sid := None),
       tabIdToSessionId :=
         (case getSession s sid of
            None \<Rightarrow> tabIdToSessionId s
          | Some session \<Rightarrow> (tabIdToSessionId s)(tabId session := None))\<rparr>"

text \<open>
  \<open>handleMediaStopped\<close> from the deletes on. What follows the assignment of
  \<open>'completed'\<close> runs in later turns and is left out: the session summary is written
  to the store under \<open>sessionId:metadata\<close>, which is the key of no batch, the popup
  is notified and the offscreen document is closed. None of it touches the maps of the
  service worker or the status.
\<close>

definition stoppedTeardown :: "string \<Rightarrow> Background \<Rightarrow> Background" where
  "stoppedTeardown sid s =
     updateSession sid (\<lambda>session. session\<lparr>status := Completed, offscreenDocumentActive := False\<rparr>)
       (cleanupTelemetry sid s)"

text \<open>After \<open>cdpClient.detach\<close> settled; a rejection is caught and logged.\<close>

definition stoppedAfterDetach :: "string \<Rightarrow> bool \<Rightarrow> Background \<Rightarrow> Background" where
  "stoppedAfterDetach sid ok s =
     stoppedTeardown sid
       (if ok then updateSession sid (\<lambda>session. session\<lparr>debuggerAttached := False\<rparr>) s else s)"

text \<open>After the final flush resolved: detach if the debugger is attached, then tear down.\<close>

definition stoppedAfterFlush :: "string \<Rightarrow> Background \<Rightarrow> Background" where
  "stoppedAfterFlush sid s =
     (case getSession s sid of
        None \<Rightarrow> s
      | Some session \<Rightarrow>
          if debuggerAttached session
          then s\<lparr>continuations := continuations s @ [StoppedAwaitsDetach sid]\<rparr>
          else stoppedTeardown sid s)"

definition errorAfterDetach :: "string \<Rightarrow> bool \<Rightarrow> Background \<Rightarrow> Background" where
  "errorAfterDetach sid ok s =
     cleanupTelemetry sid
       (if ok then updateSession sid (\<lambda>session. session\<lparr>debuggerAttached := False\<rparr>) s else s)"

text \<open>
  A handler that awaits the flush promise goes on when the promise settles. A rejection
  leaves \<open>handleMediaStopped\<close> through its caller; \<open>handleMediaError\<close> catches it and
  goes to its deletes.
\<close>

fun resumeAfterFlush :: "bool \<Rightarrow> Background \<Rightarrow> Continuation \<Rightarrow> Background" where
  "resumeAfterFlush ok s (StoppedAwaitsFlush sid) = (if ok then stoppedAfterFlush sid s else s)"
| "resumeAfterFlush ok s (ErrorAwaitsFlush sid) =
     (if ok then s\<lparr>continuations := continuations s @ [ErrorAwaitsDetach sid]\<rparr>
      else cleanupTelemetry sid s)"
| "resumeAfterFlush ok s c = s"

definition awaitsFlush :: "string \<Rightarrow> Continuation \<Rightarrow> bool" where
  "awaitsFlush sid c = (c = StoppedAwaitsFlush sid \<or> c = ErrorAwaitsFlush sid)"

definition settleAwaiters :: "string \<Rightarrow> bool \<Rightarrow> Background \<Rightarrow> Background" where
  "settleAwaiters sid ok s =
     foldl (resumeAfterFlush ok)
       (s\<lparr>continuations := filter (\<lambda>c. \<not> awaitsFlush sid c) (continuations s)\<rparr>)
       (filter (awaitsFlush sid) (continuations s))"

text \<open>
  The end of \<open>doFlushTelemetryBuffers\<close> (the sweep) and the \<open>finally\<close> of
  \<open>flushTelemetryBuffers\<close>, which run in the same turn of the event loop.
\<close>

definition finishFlush :: "string \<Rightarrow> int \<Rightarrow> Background \<Rightarrow> Background" where
  "finishFlush sid now s =
     (let s1 = ttlCleanup sid now s
      in settleAwaiters sid True (s1\<lparr>flushInProgress := (flushInProgress s1)(sid := None)\<rparr>))"

definition suspendFlush :: "string \<Rightarrow> FlushStage \<Rightarrow> nat \<Rightarrow> NetworkEvent list \<Rightarrow> ConsoleEvent list
    \<Rightarrow> DOMEvent list \<Rightarrow> Background \<Rightarrow> Background" where
  "suspendFlush sid st i ns cs ds s =
     s\<lparr>flushInProgress := (flushInProgress s)(sid \<mapsto>
          \<lparr>stage = st, batchIndex = i, networkEventsToFlush = ns,
           consoleEventsToFlush = cs, domEventsToFlush = ds\<rparr>)\<rparr>"

definition flushDOM :: "string \<Rightarrow> int \<Rightarrow> NetworkEvent list \<Rightarrow> ConsoleEvent list
    \<Rightarrow> DOMEvent list \<Rightarrow> Background \<Rightarrow> Background" where
  "flushDOM sid now ns cs ds s =
     (if ds \<noteq> [] then suspendFlush sid DOMWrite (indexOrZero (domBatchIndices s sid)) ns cs ds s
      else finishFlush sid now s)"

definition flushConsole :: "string \<Rightarrow> int \<Rightarrow> NetworkEvent list \<Rightarrow> ConsoleEvent list
    \<Rightarrow> DOMEvent list \<Rightarrow> Background \<Rightarrow> Background" where
  "flushConsole sid now ns cs ds s =
     (if cs \<noteq> [] then suspendFlush sid ConsoleWrite (indexOrZero (consoleBatchIndices s sid)) ns cs ds s
      else flushDOM sid now ns cs ds s)"

definition flushNetwork :: "string \<Rightarrow> int \<Rightarrow> NetworkEvent list \<Rightarrow> ConsoleEvent list
    \<Rightarrow> DOMEvent list \<Rightarrow> Background \<Rightarrow> Background" where
  "flushNetwork sid now ns cs ds s =
     (if ns \<noteq> [] then suspendFlush sid NetworkWrite (indexOrZero (networkBatchIndices s sid)) ns cs ds s
      else flushConsole sid now ns cs ds s)"

text \<open>
  \<open>doFlushTelemetryBuffers\<close> up to its first \<open>await\<close>: the three buffers are emptied
  before anything is written.
\<close>

definition doFlushTelemetryBuffers :: "string \<Rightarrow> int \<Rightarrow> Background \<Rightarrow> Background" where
  "doFlushTelemetryBuffers sid now s =
     flushNetwork sid now
       (takenFrom (networkEventBuffers s sid))
       (takenFrom (consoleEventBuffers s sid))
       (takenFrom (domEventBuffers s sid))
       (s\<lparr>networkEventBuffers := spliced (networkEventBuffers s) sid,
          consoleEventBuffers := spliced (consoleEventBuffers s) sid,
          domEventBuffers := spliced (domEventBuffers s) sid\<rparr>)"

text \<open>The guard: a caller that finds a flush under way gets its promise and starts nothing.\<close>

definition flushTelemetryBuffers :: "string \<Rightarrow> int \<Rightarrow> Background \<Rightarrow> Background" where
  "flushTelemetryBuffers sid now s =
     (if flushInProgress s sid \<noteq> None then s else doFlushTelemetryBuffers sid now s)"

text \<open>
  The write that the flush of \<open>sid\<close> awaits settles. On success the batch is in the
  store, the index is set to the one read before the write plus one, and the flush goes
  on to the next channel. On failure the flush rejects and what it took is gone.
\<close>

definition flushWriteSettled :: "string \<Rightarrow> bool \<Rightarrow> int \<Rightarrow> Background \<Rightarrow> Background" where
  "flushWriteSettled sid ok now s =
     (case flushInProgress s sid of
        None \<Rightarrow> s
      | Some task \<Rightarrow>
          if \<not> ok then settleAwaiters sid False (s\<lparr>flushInProgress := (flushInProgress s)(sid := None)\<rparr>)
          else
            (let ns = networkEventsToFlush task;
                 cs = consoleEventsToFlush task;
                 ds = domEventsToFlush task;
                 i = batchIndex task
             in case stage task of
                  NetworkWrite \<Rightarrow>
                    flushConsole sid now ns cs ds
                      (s\<lparr>indexedDB := storeNetworkEventBatch sid i ns (indexedDB s),
                         networkBatchIndices := (networkBatchIndices s)(sid \<mapsto> i + 1)\<rparr>)
                | ConsoleWrite \<Rightarrow>
                    flushDOM sid now ns cs ds
                      (s\<lparr>indexedDB := storeConsoleEventBatch sid i cs (indexedDB s),
                         consoleBatchIndices := (consoleBatchIndices s)(sid \<mapsto> i + 1)\<rparr>)
                | DOMWrite \<Rightarrow>
                    finishFlush sid now
                      (s\<lparr>indexedDB := storeDOMEventBatch sid i ds (indexedDB s),
                         domBatchIndices := (domBatchIndices s)(sid \<mapsto> i + 1)\<rparr>)))"

subsection \<open>Message handlers\<close>

text \<open>
  A handler takes what the message carries, the reading of \<open>Date.now()\<close> where it
  takes one, and the outcome of each call to the browser that can throw.
  \<open>handleStartRecording\<close> replies with the session id, or with a failure.

  \<open>handleStartRecording\<close>, \<open>handleStopRecording\<close> and \<open>handleScreenshotCaptured\<close>
  await calls to the browser or the store and are taken here as one turn each: what
  another handler could do between their awaits is left out. \<open>handleMediaStopped\<close>,
  \<open>handleMediaError\<close> and the flush are split at their awaits, since they change the
  maps on both sides of them. A session id is the key of its entry in every map.
\<close>

definition handleStartRecording :: "int \<Rightarrow> bool \<Rightarrow> bool \<Rightarrow> int \<Rightarrow> bool \<Rightarrow> bool \<Rightarrow> bool \<Rightarrow> bool
    \<Rightarrow> Background \<Rightarrow> string option \<times> Background" where
  "handleStartRecording tab audio microphone now streamIdOk offscreenOk cdpOk sendOk s =
     (let sid = intToString tab @ ''-'' @ intToString now
      in if \<not> streamIdOk \<or> \<not> offscreenOk then (None, s)
         else
           (let sessionState =
                  \<lparr>sessionId = sid, tabId = tab, status = Idle, sessionStartTime = now,
                   sessionStopTime = None, includeAudio = audio, includeMicrophone = microphone,
                   recordingChunkCount = 0, screenshotCount = 0, networkEventCount = 0,
                   consoleEventCount = 0, domEventCount = 0, debuggerAttached = cdpOk,
                   offscreenDocumentActive = True, lastError = None, errorRecoverable = None\<rparr>;
                s1 = s\<lparr>sessions := setEntry sid sessionState (sessions s),
                       tabIdToSessionId := (tabIdToSessionId s)(tab \<mapsto> sid)\<rparr>
            in (if sendOk then Some sid else None, s1)))"

text \<open>The reply of \<open>handleStopRecording\<close> is its \<open>success\<close> flag.\<close>

definition handleStopRecording :: "int \<Rightarrow> int \<Rightarrow> bool \<Rightarrow> Background \<Rightarrow> bool \<times> Background" where
  "handleStopRecording tab now sendOk s =
     (case find (\<lambda>e. tabId (snd e) = tab \<and> status (snd e) = Recording) (sessions s) of
        None \<Rightarrow> (False, s)
      | Some e \<Rightarrow>
          (sendOk,
           updateSession (fst e)
             (\<lambda>session. session\<lparr>status := Stopping, sessionStopTime := Some now\<rparr>) s))"

definition handleMediaReady :: "string \<Rightarrow> Background \<Rightarrow> Background" where
  "handleMediaReady sid s =
     (case getSession s sid of
        None \<Rightarrow> s
      | Some session \<Rightarrow>
          (let s1 = updateSession sid (\<lambda>session. session\<lparr>status := Recording\<rparr>) s
           in if debuggerAttached session
              then s1\<lparr>networkEventBuffers := (networkEventBuffers s1)(sid \<mapsto> []),
                      consoleEventBuffers := (consoleEventBuffers s1)(sid \<mapsto> []),
                      domEventBuffers := (domEventBuffers s1)(sid \<mapsto> []),
                      pendingNetworkRequests := (pendingNetworkRequests s1)(sid \<mapsto> Map.empty),
                      networkBatchIndices := (networkBatchIndices s1)(sid \<mapsto> 0),
                      consoleBatchIndices := (consoleBatchIndices s1)(sid \<mapsto> 0),
                      domBatchIndices := (domBatchIndices s1)(sid \<mapsto> 0),
                      timers := (timers s1)(nextTimer s1 \<mapsto> sid),
                      flushTimers := (flushTimers s1)(sid \<mapsto> nextTimer s1),
                      nextTimer := nextTimer s1 + 1\<rparr>
              else s1))"

definition handleRecordingChunk :: "string \<Rightarrow> Background \<Rightarrow> Background" where
  "handleRecordingChunk sid s =
     updateSession sid (\<lambda>session. session\<lparr>recordingChunkCount := recordingChunkCount session + 1\<rparr>) s"

definition handleScreenshotCaptured :: "string \<Rightarrow> nat \<Rightarrow> int \<Rightarrow> string option \<Rightarrow> bool
    \<Rightarrow> Background \<Rightarrow> Background" where
  "handleScreenshotCaptured sid screenshotIndex ts annotationText writeOk s =
     (case getSession s sid of
        None \<Rightarrow> s
      | Some session \<Rightarrow>
          if \<not> writeOk then s
          else updateSession sid (\<lambda>session. session\<lparr>screenshotCount := screenshotCount session + 1\<rparr>)
                 (s\<lparr>indexedDB := idb_set (sid @ '':screenshot:'' @ numberToString screenshotIndex @ '':metadata'')
                           (ScreenshotMetadata ts
                              (calculateVideoTimestamp (sessionStartTime session) ts) annotationText)
                           (indexedDB s)\<rparr>))"

definition clearFlushTimer :: "string \<Rightarrow> Background \<Rightarrow> Background" where
  "clearFlushTimer sid s =
     (case flushTimers s sid of
        None \<Rightarrow> s
      | Some flushTimer \<Rightarrow>
          s\<lparr>timers := (timers s)(flushTimer := None), flushTimers := (flushTimers s)(sid := None)\<rparr>)"

text \<open>\<open>handleMediaStopped\<close> up to its first \<open>await\<close>, the send of \<open>SERIALIZE_STATE\<close>.\<close>

definition handleMediaStopped :: "string \<Rightarrow> Background \<Rightarrow> Background" where
  "handleMediaStopped sid s =
     (case getSession s sid of
        None \<Rightarrow> s
      | Some session \<Rightarrow>
          (let s1 = clearFlushTimer sid s
           in s1\<lparr>continuations := continuations s1 @ [StoppedAwaitsSend sid]\<rparr>))"

text \<open>
  After that send settled (a rejection is caught): \<open>await flushTelemetryBuffers\<close>. The
  handler waits while a flush of the session is under way, its own or the one it joined.
\<close>

definition stoppedAfterSend :: "string \<Rightarrow> int \<Rightarrow> Background \<Rightarrow> Background" where
  "stoppedAfterSend sid now s =
     (let s1 = flushTelemetryBuffers sid now s
      in if flushInProgress s1 sid \<noteq> None
         then s1\<lparr>continuations := continuations s1 @ [StoppedAwaitsFlush sid]\<rparr>
         else stoppedAfterFlush sid s1)"

definition handleMediaError :: "string \<Rightarrow> string \<Rightarrow> MediaStage \<Rightarrow> bool \<Rightarrow> int
    \<Rightarrow> Background \<Rightarrow> Background" where
  "handleMediaError sid err mediaStage closeOk now s =
     (case getSession s sid of
        None \<Rightarrow> s
      | Some session \<Rightarrow>
          (let s1 = updateSession sid
                      (\<lambda>session. session\<lparr>status := Error, lastError := Some err,
                                          errorRecoverable := Some (mediaStage \<noteq> Init)\<rparr>) s
           in if debuggerAttached session \<and> (mediaStage = WhileRecording \<or> mediaStage = WhileStopping)
              then
                (let s2 = flushTelemetryBuffers sid now (clearFlushTimer sid s1)
                 in if flushInProgress s2 sid \<noteq> None
                    then s2\<lparr>continuations := continuations s2 @ [ErrorAwaitsFlush sid]\<rparr>
                    else s2\<lparr>continuations := continuations s2 @ [ErrorAwaitsDetach sid]\<rparr>)
              else if mediaStage = Init \<and> closeOk
              then updateSession sid (\<lambda>session. session\<lparr>offscreenDocumentActive := False\<rparr>) s1
              else s1))"

definition handleDOMEventCaptured :: "string \<Rightarrow> string \<Rightarrow> string \<Rightarrow> int \<Rightarrow> string option \<Rightarrow> int
    \<Rightarrow> Background \<Rightarrow> Background" where
  "handleDOMEventCaptured sid evType sel ts meta now s =
     (case getSession s sid of
        None \<Rightarrow> s
      | Some session \<Rightarrow>
          if status session \<noteq> Recording then s
          else
            (let domEvent =
                   \<lparr>eventType = evType, selector = sel, d_timestamp = ts,
                    d_videoTimestamp = calculateVideoTimestamp (sessionStartTime session) ts,
                    metadata = meta\<rparr>
             in case domEventBuffers s sid of
                  None \<Rightarrow> s
                | Some buffer \<Rightarrow>
                    (let s1 = updateSession sid
                                (\<lambda>session. session\<lparr>domEventCount := domEventCount session + 1\<rparr>)
                                (s\<lparr>domEventBuffers := (domEventBuffers s)(sid \<mapsto> buffer @ [domEvent])\<rparr>)
                     in if length (buffer @ [domEvent]) \<ge> BUFFER_FLUSH_SIZE
                        then flushTelemetryBuffers sid now s1 else s1)))"

definition handleStateSerialized :: "string \<Rightarrow> string \<Rightarrow> bool \<Rightarrow> Background \<Rightarrow> Background" where
  "handleStateSerialized sid serialized writeOk s =
     (case getSession s sid of
        None \<Rightarrow> s
      | Some session \<Rightarrow>
          if writeOk then s\<lparr>indexedDB := idb_set (sid @ '':state'') (SerializedState serialized) (indexedDB s)\<rparr>
          else s)"

text \<open>
  A suspended handler goes on when the call it awaits settles. The handlers that await
  the flush are resumed by the flush itself.
\<close>

definition resumeContinuation :: "nat \<Rightarrow> bool \<Rightarrow> int \<Rightarrow> Background \<Rightarrow> Background" where
  "resumeContinuation k ok now s =
     (if k < length (continuations s)
      then
        (let s1 = s\<lparr>continuations := take k (continuations s) @ drop (Suc k) (continuations s)\<rparr>
         in case continuations s ! k of
              StoppedAwaitsSend sid \<Rightarrow> stoppedAfterSend sid now s1
            | StoppedAwaitsDetach sid \<Rightarrow> stoppedAfterDetach sid ok s1
            | ErrorAwaitsDetach sid \<Rightarrow> errorAfterDetach sid ok s1
            | StoppedAwaitsFlush sid \<Rightarrow> s
            | ErrorAwaitsFlush sid \<Rightarrow> s)
      else s)"

subsection \<open>Handlers of the DevTools Protocol events\<close>

text \<open>
  The parameters of the events (\<open>types/cdp\<close>), as the handlers read them. \<open>lf_type\<close>
  is the resource type that the protocol sends with \<open>Network.loadingFailed\<close> as it does
  with \<open>Network.responseReceived\<close>; \<open>handleNetworkLoadingFailed\<close> does not read it.
\<close>

record RequestWillBeSentParams =
  rq_requestId :: string
  rq_url :: string
  rq_method :: string
  rq_headers :: headers
  rq_postData :: "string option"
  rq_timestamp :: rat
  rq_wallTime :: rat

record ResponseReceivedParams =
  rs_requestId :: string
  rs_timestamp :: rat
  rs_type :: string
  rs_status :: int
  rs_statusText :: string
  rs_headers :: headers
  rs_mimeType :: "string option"

record LoadingFailedParams =
  lf_requestId :: string
  lf_timestamp :: rat
  lf_type :: string
  lf_errorText :: string

record RemoteObject =
  ro_type :: string
  ro_value :: "string option"
  ro_description :: "string option"

record ConsoleAPICalledParams =
  ca_type :: string
  ca_args :: "RemoteObject list"
  ca_stackTrace :: "string option"
  ca_timestamp :: rat

record ExceptionThrownParams =
  ex_timestamp :: rat
  ex_text :: string
  ex_stackTrace :: "string option"
  ex_url :: "string option"
  ex_lineNumber :: "int option"

text \<open>
  What the five handlers begin with: the session of the tab through the reverse index,
  and only while it records.
\<close>

definition recordingSession :: "Background \<Rightarrow> int \<Rightarrow> (string \<times> SessionState) option" where
  "recordingSession s tab =
     (case tabIdToSessionId s tab of
        None \<Rightarrow> None
      | Some sid \<Rightarrow>
          (case getSession s sid of
             None \<Rightarrow> None
           | Some session \<Rightarrow> if status session \<noteq> Recording then None else Some (sid, session)))"

definition setPending :: "string \<Rightarrow> (string \<rightharpoonup> PartialNetworkEvent) \<Rightarrow> Background \<Rightarrow> Background" where
  "setPending sid pendingRequests s =
     s\<lparr>pendingNetworkRequests := (pendingNetworkRequests s)(sid \<mapsto> pendingRequests)\<rparr>"

text \<open>\<open>pendingRequests.delete(requestId)\<close> on the table of the session.\<close>

definition deletePending :: "string \<Rightarrow> string \<Rightarrow> Background \<Rightarrow> Background" where
  "deletePending sid rid s =
     (case pendingNetworkRequests s sid of
        None \<Rightarrow> s
      | Some pendingRequests \<Rightarrow> setPending sid (pendingRequests(rid := None)) s)"

definition handleNetworkRequestWillBeSent :: "int \<Rightarrow> RequestWillBeSentParams \<Rightarrow> Background
    \<Rightarrow> Background" where
  "handleNetworkRequestWillBeSent tab params s =
     (case recordingSession s tab of
        None \<Rightarrow> s
      | Some (sid, session) \<Rightarrow>
          (case pendingNetworkRequests s sid of
             None \<Rightarrow> s
           | Some pendingRequests \<Rightarrow>
               (let partialEvent =
                      \<lparr>p_requestId = Some (rq_requestId params),
                       p_url = Some (rq_url params),
                       p_method = Some (rq_method params),
                       p_headers = Some (sanitizeHeaders (rq_headers params)),
                       p_postData = rq_postData params,
                       p_timestamp = Some (rq_timestamp params),
                       p_wallTime = Some (rq_wallTime params),
                       p_videoTimestamp =
                         Some (cdpWallTimeToVideoOffset (rq_wallTime params) (sessionStartTime session))\<rparr>
                in setPending sid (pendingRequests(rq_requestId params \<mapsto> partialEvent)) s)))"

text \<open>\<open>!x\<close> on an optional string: absent or empty.\<close>

definition missing :: "string option \<Rightarrow> bool" where
  "missing x = (x = None \<or> x = Some [])"

text \<open>\<open>buffer.push(event); session.networkEventCount++\<close> and the flush of a full buffer.\<close>

definition pushNetworkEvent :: "string \<Rightarrow> NetworkEvent \<Rightarrow> int \<Rightarrow> Background \<Rightarrow> Background" where
  "pushNetworkEvent sid event now s =
     (case networkEventBuffers s sid of
        None \<Rightarrow> s
      | Some buffer \<Rightarrow>
          (let s1 = updateSession sid
                      (\<lambda>session. session\<lparr>networkEventCount := networkEventCount session + 1\<rparr>)
                      (s\<lparr>networkEventBuffers := (networkEventBuffers s)(sid \<mapsto> buffer @ [event])\<rparr>)
           in if length (buffer @ [event]) \<ge> BUFFER_FLUSH_SIZE
              then flushTelemetryBuffers sid now s1 else s1))"

definition pushConsoleEvent :: "string \<Rightarrow> ConsoleEvent \<Rightarrow> int \<Rightarrow> Background \<Rightarrow> Background" where
  "pushConsoleEvent sid event now s =
     (case consoleEventBuffers s sid of
        None \<Rightarrow> s
      | Some buffer \<Rightarrow>
          (let s1 = updateSession sid
                      (\<lambda>session. session\<lparr>consoleEventCount := consoleEventCount session + 1\<rparr>)
                      (s\<lparr>consoleEventBuffers := (consoleEventBuffers s)(sid \<mapsto> buffer @ [event])\<rparr>)
           in if length (buffer @ [event]) \<ge> BUFFER_FLUSH_SIZE
              then flushTelemetryBuffers sid now s1 else s1))"

text \<open>The filter of \<open>handleNetworkResponse\<close>; a status of zero is falsy.\<close>

definition shouldInclude :: "string \<Rightarrow> int \<Rightarrow> bool" where
  "shouldInclude resourceType st =
     (resourceType = ''XHR'' \<or> resourceType = ''Fetch'' \<or> resourceType = ''WebSocket''
      \<or> resourceType = ''Document'' \<or> (st \<noteq> 0 \<and> st \<ge> 400))"

text \<open>\<open>x || d\<close> on an optional number: the default when absent or zero.\<close>

definition orElse :: "'a::zero option \<Rightarrow> 'a \<Rightarrow> 'a" where
  "orElse x d = (case x of None \<Rightarrow> d | Some v \<Rightarrow> if v = 0 then d else v)"

definition handleNetworkResponse :: "int \<Rightarrow> ResponseReceivedParams \<Rightarrow> int \<Rightarrow> Background
    \<Rightarrow> Background" where
  "handleNetworkResponse tab params now s =
     (case recordingSession s tab of
        None \<Rightarrow> s
      | Some (sid, session) \<Rightarrow>
          (case pendingNetworkRequests s sid of
             None \<Rightarrow> s
           | Some pendingRequests \<Rightarrow>
               (case pendingRequests (rs_requestId params) of
                  None \<Rightarrow> s
                | Some partialEvent \<Rightarrow>
                    if missing (p_requestId partialEvent) \<or> missing (p_url partialEvent)
                       \<or> missing (p_method partialEvent)
                    then deletePending sid (rs_requestId params) s
                    else
                      (let completedEvent =
                             \<lparr>requestId = the (p_requestId partialEvent),
                              url = the (p_url partialEvent),
                              n_method = the (p_method partialEvent),
                              headers = (case p_headers partialEvent of None \<Rightarrow> [] | Some h \<Rightarrow> h),
                              postData = p_postData partialEvent,
                              timestamp = orElse (p_timestamp partialEvent) (rs_timestamp params),
                              wallTime = orElse (p_wallTime partialEvent) 0,
                              videoTimestamp = orElse (p_videoTimestamp partialEvent) 0,
                              n_status = rs_status params,
                              statusText = rs_statusText params,
                              responseHeaders = Some (sanitizeHeaders (rs_headers params)),
                              mimeType = rs_mimeType params\<rparr>
                       in if \<not> shouldInclude (rs_type params) (n_status completedEvent)
                          then deletePending sid (rs_requestId params) s
                          else deletePending sid (rs_requestId params)
                                 (pushNetworkEvent sid completedEvent now s)))))"

definition handleNetworkLoadingFailed :: "int \<Rightarrow> LoadingFailedParams \<Rightarrow> int \<Rightarrow> Background
    \<Rightarrow> Background" where
  "handleNetworkLoadingFailed tab params now s =
     (case recordingSession s tab of
        None \<Rightarrow> s
      | Some (sid, session) \<Rightarrow>
          (case pendingNetworkRequests s sid of
             None \<Rightarrow> s
           | Some pendingRequests \<Rightarrow>
               (case pendingRequests (lf_requestId params) of
                  None \<Rightarrow> s
                | Some partialEvent \<Rightarrow>
                    if missing (p_requestId partialEvent) \<or> missing (p_url partialEvent)
                       \<or> missing (p_method partialEvent)
                    then deletePending sid (lf_requestId params) s
                    else
                      (let failedEvent =
                             \<lparr>requestId = the (p_requestId partialEvent),
                              url = the (p_url partialEvent),
                              n_method = the (p_method partialEvent),
                              headers = (case p_headers partialEvent of None \<Rightarrow> [] | Some h \<Rightarrow> h),
                              postData = p_postData partialEvent,
                              timestamp = orElse (p_timestamp partialEvent) (lf_timestamp params),
                              wallTime = orElse (p_wallTime partialEvent) 0,
                              videoTimestamp = orElse (p_videoTimestamp partialEvent) 0,
                              n_status = 0,
                              statusText = lf_errorText params,
                              responseHeaders = None,
                              mimeType = None\<rparr>
                       in deletePending sid (lf_requestId params)
                            (pushNetworkEvent sid failedEvent now s)))))"

definition consoleLevel :: "string \<Rightarrow> ConsoleLevel" where
  "consoleLevel t =
     (if t = ''warning'' then LevelWarn
      else if t = ''error'' then LevelError
      else if t = ''info'' then LevelInfo
      else if t = ''debug'' then LevelDebug
      else LevelLog)"

definition argText :: "RemoteObject \<Rightarrow> string" where
  "argText arg =
     (case ro_value arg of
        Some v \<Rightarrow> v
      | None \<Rightarrow> (case ro_description arg of Some d \<Rightarrow> d | None \<Rightarrow> ''['' @ ro_type arg @ '']''))"

fun joinWith :: "string \<Rightarrow> string list \<Rightarrow> string" where
  "joinWith sep [] = []"
| "joinWith sep [x] = x"
| "joinWith sep (x # y # ys) = x @ sep @ joinWith sep (y # ys)"

text \<open>\<open>Runtime.consoleAPICalled\<close> carries no wall time: the handler reads \<open>Date.now()\<close>.\<close>

definition handleConsoleAPICalled :: "int \<Rightarrow> ConsoleAPICalledParams \<Rightarrow> int \<Rightarrow> Background
    \<Rightarrow> Background" where
  "handleConsoleAPICalled tab params now s =
     (case recordingSession s tab of
        None \<Rightarrow> s
      | Some (sid, session) \<Rightarrow>
          pushConsoleEvent sid
            \<lparr>level = consoleLevel (ca_type params),
             c_text = joinWith '' '' (map argText (ca_args params)),
             args = map ro_value (ca_args params),
             stackTrace = ca_stackTrace params,
             c_timestamp = ca_timestamp params,
             c_wallTime = now,
             c_videoTimestamp = calculateVideoTimestamp (sessionStartTime session) now,
             c_url = None,
             lineNumber = None\<rparr>
            now s)"

definition handleExceptionThrown :: "int \<Rightarrow> ExceptionThrownParams \<Rightarrow> int \<Rightarrow> Background
    \<Rightarrow> Background" where
  "handleExceptionThrown tab params now s =
     (case recordingSession s tab of
        None \<Rightarrow> s
      | Some (sid, session) \<Rightarrow>
          pushConsoleEvent sid
            \<lparr>level = LevelError,
             c_text = ex_text params,
             args = [],
             stackTrace = ex_stackTrace params,
             c_timestamp = ex_timestamp params,
             c_wallTime = now,
             c_videoTimestamp = calculateVideoTimestamp (sessionStartTime session) now,
             c_url = ex_url params,
             lineNumber = ex_lineNumber params\<rparr>
            now s)"

definition handleCDPDetach :: "int \<Rightarrow> Background \<Rightarrow> Background" where
  "handleCDPDetach tab s =
     (case recordingSession s tab of
        None \<Rightarrow> s
      | Some (sid, session) \<Rightarrow>
          updateSession sid (\<lambda>session. session\<lparr>debuggerAttached := False\<rparr>) s)"

text \<open>The callback of an interval timer that is still live.\<close>

definition timerFired :: "nat \<Rightarrow> int \<Rightarrow> Background \<Rightarrow> Background" where
  "timerFired flushTimer now s =
     (case timers s flushTimer of None \<Rightarrow> s | Some sid \<Rightarrow> flushTelemetryBuffers sid now s)"

subsection \<open>One turn of the event loop\<close>

text \<open>
  Everything that makes the service worker run: a message, an event of the debugger, a
  timer, or the settling of a promise that suspended code awaits. \<open>TAKE_SCREENSHOT\<close>
  and \<open>GET_SESSION_STATUS\<close> only read the state.
\<close>

datatype Event =
    StartRecording int bool bool int bool bool bool bool
  | StopRecording int int bool
  | TakeScreenshot int
  | GetSessionStatus int
  | MediaReady string
  | RecordingChunk string
  | ScreenshotCaptured string nat int "string option" bool
  | MediaStopped string
  | MediaError string string MediaStage bool int
  | DOMEventCaptured string string string int "string option" int
  | StateSerialized string string bool
  | RequestWillBeSent int RequestWillBeSentParams
  | ResponseReceived int ResponseReceivedParams int
  | LoadingFailed int LoadingFailedParams int
  | ConsoleAPICalled int ConsoleAPICalledParams int
  | ExceptionThrown int ExceptionThrownParams int
  | DebuggerDetached int
  | TimerFired nat int
  | FlushWriteSettled string bool int
  | Resumed nat bool int

fun step :: "Event \<Rightarrow> Background \<Rightarrow> Background" where
  "step (StartRecording tab audio microphone now streamIdOk offscreenOk cdpOk sendOk) s =
     snd (handleStartRecording tab audio microphone now streamIdOk offscreenOk cdpOk sendOk s)"
| "step (StopRecording tab now sendOk) s = snd (handleStopRecording tab now sendOk s)"
| "step (TakeScreenshot tab) s = s"
| "step (GetSessionStatus tab) s = s"
| "step (MediaReady sid) s = handleMediaReady sid s"
| "step (RecordingChunk sid) s = handleRecordingChunk sid s"
| "step (ScreenshotCaptured sid i ts annotationText writeOk) s =
     handleScreenshotCaptured sid i ts annotationText writeOk s"
| "step (MediaStopped sid) s = handleMediaStopped sid s"
| "step (MediaError sid err mediaStage closeOk now) s = handleMediaError sid err mediaStage closeOk now s"
| "step (DOMEventCaptured sid evType sel ts meta now) s = handleDOMEventCaptured sid evType sel ts meta now s"
| "step (StateSerialized sid serialized writeOk) s = handleStateSerialized sid serialized writeOk s"
| "step (RequestWillBeSent tab params) s = handleNetworkRequestWillBeSent tab params s"
| "step (ResponseReceived tab params now) s = handleNetworkResponse tab params now s"
| "step (LoadingFailed tab params now) s = handleNetworkLoadingFailed tab params now s"
| "step (ConsoleAPICalled tab params now) s = handleConsoleAPICalled tab params now s"
| "step (ExceptionThrown tab params now) s = handleExceptionThrown tab params now s"
| "step (DebuggerDetached tab) s = handleCDPDetach tab s"
| "step (TimerFired flushTimer now) s = timerFired flushTimer now s"
| "step (FlushWriteSettled sid ok now) s = flushWriteSettled sid ok now s"
| "step (Resumed k ok now) s = resumeContinuation k ok now s"

text \<open>A run: the events in the order the event loop takes them.\<close>

definition run :: "Event list \<Rightarrow> Background \<Rightarrow> Background" where
  "run es s = foldl (\<lambda>st e. step e st) s es"

text \<open>The state of a service worker that has just started.\<close>

definition initial :: Background where
  "initial =
     \<lparr>sessions = [], networkEventBuffers = Map.empty, consoleEventBuffers = Map.empty,
      domEventBuffers = Map.empty, pendingNetworkRequests = Map.empty, flushTimers = Map.empty,
      timers = Map.empty, nextTimer = 1, networkBatchIndices = Map.empty,
      consoleBatchIndices = Map.empty, domBatchIndices = Map.empty, flushInProgress = Map.empty,
      tabIdToSessionId = Map.empty, indexedDB = [], continuations = []\<rparr>"

subsection \<open>Notions the properties are stated with\<close>

text \<open>
  The pending entry that a response or a failure for request \<open>rid\<close> on tab \<open>tab\<close>
  finds: none without a recording session of the tab, without its table, or without
  the entry.
\<close>

definition pendingEntry :: "Background \<Rightarrow> int \<Rightarrow> string \<Rightarrow> PartialNetworkEvent option" where
  "pendingEntry s tab rid =
     (case recordingSession s tab of
        None \<Rightarrow> None
      | Some (sid, session) \<Rightarrow>
          (case pendingNetworkRequests s sid of
             None \<Rightarrow> None
           | Some pendingRequests \<Rightarrow> pendingRequests rid))"

text \<open>The events that complete request \<open>rid\<close> of tab \<open>tab\<close>: a response or a failure.\<close>

fun completes :: "int \<Rightarrow> string \<Rightarrow> Event \<Rightarrow> bool" where
  "completes tab rid (ResponseReceived tab' params now) = (tab' = tab \<and> rs_requestId params = rid)"
| "completes tab rid (LoadingFailed tab' params now) = (tab' = tab \<and> lf_requestId params = rid)"
| "completes tab rid e = False"

text \<open>No suspended handler awaits the flush of the session.\<close>

definition nobodyAwaits :: "string \<Rightarrow> Background \<Rightarrow> bool" where
  "nobodyAwaits sid s = list_all (\<lambda>c. \<not> awaitsFlush sid c) (continuations s)"

text \<open>
  The store after one write for each channel whose buffer holds events, in the order
  network, console, DOM, each under the index of its channel.
\<close>

definition flushedStore :: "string \<Rightarrow> Background \<Rightarrow> idb" where
  "flushedStore sid s =
     (let ns = takenFrom (networkEventBuffers s sid);
          cs = takenFrom (consoleEventBuffers s sid);
          ds = takenFrom (domEventBuffers s sid);
          db1 = (if ns = [] then indexedDB s
                 else storeNetworkEventBatch sid (indexOrZero (networkBatchIndices s sid)) ns (indexedDB s));
          db2 = (if cs = [] then db1
                 else storeConsoleEventBatch sid (indexOrZero (consoleBatchIndices s sid)) cs db1)
      in if ds = [] then db2
         else storeDOMEventBatch sid (indexOrZero (domBatchIndices s sid)) ds db2)"

text \<open>The three writes that a flush can await settle, each with success.\<close>

definition settled3 :: "string \<Rightarrow> int \<Rightarrow> int \<Rightarrow> int \<Rightarrow> Background \<Rightarrow> Background" where
  "settled3 sid n1 n2 n3 s =
     run [FlushWriteSettled sid True n1, FlushWriteSettled sid True n2, FlushWriteSettled sid True n3] s"



text \<open>
  The three channels of telemetry are named by the write that stores them. The key of a
  batch, and the index under which the next batch of a channel is written.
\<close>

fun batchPrefix :: "FlushStage \<Rightarrow> string \<Rightarrow> string" where
  "batchPrefix NetworkWrite sid = networkBatchPrefix sid"
| "batchPrefix ConsoleWrite sid = consoleBatchPrefix sid"
| "batchPrefix DOMWrite sid = domBatchPrefix sid"

definition batchKey :: "FlushStage \<Rightarrow> string \<Rightarrow> nat \<Rightarrow> string" where
  "batchKey channel sid j = batchPrefix channel sid @ numberToString j"

fun batchIndices :: "FlushStage \<Rightarrow> Background \<Rightarrow> string \<rightharpoonup> nat" where
  "batchIndices NetworkWrite s = networkBatchIndices s"
| "batchIndices ConsoleWrite s = consoleBatchIndices s"
| "batchIndices DOMWrite s = domBatchIndices s"

definition currentIndex :: "FlushStage \<Rightarrow> Background \<Rightarrow> string \<Rightarrow> nat" where
  "currentIndex channel s sid = indexOrZero (batchIndices channel s sid)"

text \<open>
  The batches of a channel of a session in the store are those with an index below the
  session's batch index for the channel.
\<close>

definition batchesContiguous :: "FlushStage \<Rightarrow> string \<Rightarrow> Background \<Rightarrow> bool" where
  "batchesContiguous channel sid s =
     (\<forall>j. (idb_get (batchKey channel sid j) (indexedDB s) \<noteq> None) = (j < currentIndex channel s sid))"


text \<open>No suspended handler awaits a flush.\<close>

definition quiet :: "Background \<Rightarrow> bool" where
  "quiet s = list_all (\<lambda>c. \<forall>sid. \<not> awaitsFlush sid c) (continuations s)"

text \<open>
  What holds while a session records: the batches of each channel are contiguous, and a
  flush that is suspended at a write has read the current index of the channel it writes.
\<close>

definition batchInvariant :: "string \<Rightarrow> Background \<Rightarrow> bool" where
  "batchInvariant sid s =
     ((\<forall>channel. batchesContiguous channel sid s) \<and> quiet s
      \<and> (\<forall>task. flushInProgress s sid = Some task \<longrightarrow>
                  batchIndex task = currentIndex (stage task) s sid))"

subsection \<open>Notions for the session registry\<close>


text \<open>Every handler that awaits the flush of a session has one under way to wait for.\<close>

definition awaitersInFlight :: "Background \<Rightarrow> bool" where
  "awaitersInFlight s =
     (\<forall>c \<in> set (continuations s). \<forall>sid. awaitsFlush sid c \<longrightarrow> flushInProgress s sid \<noteq> None)"

text \<open>
  Between two states every session is still there, with its status unchanged or
  changed along \<open>E\<close>.
\<close>

definition keeps :: "(Status \<Rightarrow> Status \<Rightarrow> bool) \<Rightarrow> Background \<Rightarrow> Background \<Rightarrow> bool" where
  "keeps E s s' =
     (\<forall>sid a. getSession s sid = Some a \<longrightarrow>
        (\<exists>b. getSession s' sid = Some b \<and> (status b = status a \<or> E (status a) (status b))))"




text \<open>What a handler adds to the suspended handlers after a flush awaits no flush.\<close>

definition grows :: "Background \<Rightarrow> Background \<Rightarrow> bool" where
  "grows s s' =
     (flushInProgress s' = flushInProgress s
      \<and> map fst (sessions s') = map fst (sessions s)
      \<and> (\<exists>cs. continuations s' = continuations s @ cs \<and> (\<forall>c \<in> set cs. \<forall>sid. \<not> awaitsFlush sid c)))"

text \<open>What the registry needs of a step.\<close>

definition registryStep :: "(Status \<Rightarrow> Status \<Rightarrow> bool) \<Rightarrow> Background \<Rightarrow> Background \<Rightarrow> bool" where
  "registryStep E s s' =
     (keeps E s s' \<and> awaitersInFlight s' \<and> map fst (sessions s') = map fst (sessions s))"

subsection \<open>Sample data\<close>

definition sampleEvent :: "nat \<Rightarrow> NetworkEvent" where
  "sampleEvent i =
     \<lparr>requestId = ''r'' @ numberToString i, url = ''https://example.test/api'', n_method = ''GET'',
      headers = [], postData = None, timestamp = 5, wallTime = 21 / 20, videoTimestamp = 50,
      n_status = 200, statusText = ''OK'', responseHeaders = Some [], mimeType = None\<rparr>"

definition sampleRequest :: "string \<Rightarrow> rat \<Rightarrow> RequestWillBeSentParams" where
  "sampleRequest rid w =
     \<lparr>rq_requestId = rid, rq_url = ''https://example.test/api'', rq_method = ''GET'',
      rq_headers = [(''Authorization'', ''Bearer xyz''), (''Accept'', ''text/html'')],
      rq_postData = None, rq_timestamp = 5, rq_wallTime = w\<rparr>"

definition sampleResponse :: "string \<Rightarrow> string \<Rightarrow> int \<Rightarrow> ResponseReceivedParams" where
  "sampleResponse rid resourceType st =
     \<lparr>rs_requestId = rid, rs_timestamp = 6, rs_type = resourceType, rs_status = st,
      rs_statusText = ''OK'', rs_headers = [], rs_mimeType = None\<rparr>"

definition sampleFailure :: "string \<Rightarrow> LoadingFailedParams" where
  "sampleFailure rid =
     \<lparr>lf_requestId = rid, lf_timestamp = 7, lf_type = ''Image'', lf_errorText = ''net::ERR_FAILED''\<rparr>"

definition sampleConsole :: ConsoleAPICalledParams where
  "sampleConsole =
     \<lparr>ca_type = ''warning'',
      ca_args = [\<lparr>ro_type = ''string'', ro_value = Some ''slow'', ro_description = None\<rparr>],
      ca_stackTrace = None, ca_timestamp = 8\<rparr>"

text \<open>
  A session of tab 1 started at \<open>T0 = 1000\<close> with the debugger attached, after
  \<open>MEDIA_READY\<close>; and the same with request \<open>r1\<close> sent at wall time 1.05 s.
\<close>

definition recordingExample :: Background where
  "recordingExample =
     run [StartRecording 1 True False 1000 True True True True, MediaReady ''1-1000''] initial"

definition pendingExample :: Background where
  "pendingExample = step (RequestWillBeSent 1 (sampleRequest ''r1'' (21 / 20))) recordingExample"

text \<open>The same with the response to \<open>r1\<close> in the network buffer.\<close>

definition bufferedExample :: Background where
  "bufferedExample = step (ResponseReceived 1 (sampleResponse ''r1'' ''XHR'' 200) 1100) pendingExample"


text \<open>
  A run in which the stop arrives while a flush of the timer is still writing: request
  \<open>r1\<close> is flushed by the timer, request \<open>r2\<close> completes during the write, then
  the recording is stopped and the final flush joins the flush under way.
\<close>

definition lostEventTrace :: "Event list" where
  "lostEventTrace =
     [StartRecording 1 True False 1000 True True True True,
      MediaReady ''1-1000'',
      RequestWillBeSent 1 (sampleRequest ''r1'' (21 / 20)),
      ResponseReceived 1 (sampleResponse ''r1'' ''XHR'' 200) 1100,
      TimerFired 1 11000,
      RequestWillBeSent 1 (sampleRequest ''r2'' 11),
      ResponseReceived 1 (sampleResponse ''r2'' ''Fetch'' 200) 11010,
      StopRecording 1 11020 True,
      MediaStopped ''1-1000'',
      Resumed 0 True 11030,
      FlushWriteSettled ''1-1000'' True 11040,
      Resumed 0 True 11050]"

section \<open>Rounding to a double\<close>

lemma roundTiesToEven_of_int [simp]: "roundTiesToEven (of_int n) = n"
  by (simp add: roundTiesToEven_def)





lemma powi_step: "(2::rat) powi k = 2 * 2 powi (k - 1)"
  using power_int_add_1' [of "2::rat" "k - 1"] by simp

lemma powi_quotient: "(2::rat) powi (a - b) = 2 powi a / 2 powi b"
  using power_int_diff [of "2::rat" a b] by simp

lemma bitLength_nonneg: "0 \<le> bitLength n"
proof (induction n rule: bitLength.induct)
  case (1 n)
  then show ?case using bitLength.simps [of n] by (cases "n \<le> 0") simp_all
qed

lemma bitLength_bounds:
  assumes "0 < n"
  shows "(2::rat) powi (bitLength n - 1) \<le> of_int n \<and> (of_int n :: rat) < 2 powi bitLength n"
  using assms
proof (induction n rule: bitLength.induct)
  case (1 n)
  show ?case
  proof (cases "n = 1")
    case True
    have "bitLength (1 div 2) = 0" by (simp add: bitLength.simps)
    then have "bitLength 1 = 1" using bitLength.simps [of 1] by simp
    then show ?thesis using True by simp
  next
    case False
    then have h: "0 < n div 2" using 1(2) by simp
    have b: "bitLength n = 1 + bitLength (n div 2)"
      using 1(2) bitLength.simps [of n] by simp
    have ih: "(2::rat) powi (bitLength (n div 2) - 1) \<le> of_int (n div 2)"
      "(of_int (n div 2) :: rat) < 2 powi bitLength (n div 2)"
      using 1(1) 1(2) h by simp_all
    have lo: "(2::rat) powi (bitLength n - 1) \<le> of_int n"
    proof -
      have "(2::rat) powi (bitLength n - 1) = 2 * 2 powi (bitLength (n div 2) - 1)"
        unfolding b using powi_step [of "bitLength (n div 2)"] by simp
      also have "\<dots> \<le> 2 * of_int (n div 2)" using ih(1) by simp
      also have "\<dots> = of_int (2 * (n div 2))" by simp
      also have "\<dots> \<le> of_int n" by (simp only: of_int_le_iff)
      finally show ?thesis .
    qed
    have "\<exists>m. (2::rat) powi bitLength (n div 2) = of_int m"
    proof -
      have "0 \<le> bitLength (n div 2)" by (rule bitLength_nonneg)
      then have "(2::rat) powi bitLength (n div 2) = of_int (2 ^ nat (bitLength (n div 2)))"
        by (simp add: power_int_def)
      then show ?thesis by blast
    qed
    then obtain m where m: "(2::rat) powi bitLength (n div 2) = of_int m" by blast
    then have "n div 2 < m" using ih(2) by simp
    then have "n < 2 * m" by linarith
    then have "(of_int n :: rat) < of_int (2 * m)" by (simp only: of_int_less_iff)
    also have "\<dots> = 2 powi bitLength n"
      unfolding b using m powi_step [of "1 + bitLength (n div 2)"] by simp
    finally show ?thesis using lo by simp
  qed
qed

lemma binade_bounds:
  assumes "0 < x"
  shows "2 powi binade x \<le> x \<and> x < 2 powi (binade x + 1)"
proof -
  obtain p q where pq: "quotient_of x = (p, q)" by (cases "quotient_of x")
  have q: "0 < q" using pq by (rule quotient_of_denom_pos)
  have x: "x = of_int p / of_int q" using pq by (rule quotient_of_div)
  have p: "0 < p" using assms q x by (simp add: zero_less_divide_iff)
  define a where "a = bitLength p"
  define b where "b = bitLength q"
  have pr: "(2::rat) powi (a - 1) \<le> of_int p" "(of_int p :: rat) < 2 powi a"
    "(2::rat) powi (b - 1) \<le> of_int q" "(of_int q :: rat) < 2 powi b"
    using bitLength_bounds [OF p] bitLength_bounds [OF q] by (simp_all add: a_def b_def)
  define k where "k = a - b"
  have up: "x < 2 powi (k + 1)"
  proof -
    have "x < 2 powi a / of_int q"
      unfolding x using pr(2) q by (simp add: divide_strict_right_mono)
    also have "\<dots> \<le> 2 powi a / 2 powi (b - 1)"
      using pr(3) q by (intro divide_left_mono) (simp_all add: zero_less_power_int)
    also have "\<dots> = 2 powi (a - (b - 1))"
      by (simp add: power_int_diff)
    also have "a - (b - 1) = k + 1"
      by (simp add: k_def)
    finally show ?thesis .
  qed
  have lo: "2 powi (k - 1) < x"
  proof -
    have "(2::rat) powi (k - 1) = 2 powi (a - 1) / 2 powi b"
    proof -
      have "k - 1 = (a - 1) - b" by (simp add: k_def)
      then show ?thesis by (simp only: powi_quotient)
    qed
    also have "\<dots> < 2 powi (a - 1) / of_int q"
      using pr(4) q by (intro divide_strict_left_mono) (simp_all add: zero_less_power_int)
    also have "\<dots> \<le> x"
      unfolding x using pr(1) q by (simp add: divide_right_mono)
    finally show ?thesis .
  qed
  have b: "binade x = (if 2 powi k \<le> x then k else k - 1)"
    by (simp add: binade_def pq a_def b_def k_def Let_def)
  show ?thesis
  proof (cases "2 powi k \<le> x")
    case True
    then show ?thesis using b up by simp
  next
    case False
    then show ?thesis using b lo by simp
  qed
qed



lemma powi_pos [simp]: "0 < (2::rat) powi k"
  by (simp add: zero_less_power_int)








text \<open>An integer of magnitude up to \<open>2 ^ 53\<close> is a double.\<close>

lemma powi_53: "(2::rat) powi 53 = of_int (2 ^ 53)"
proof -
  have "(2::rat) powi (int 53) = 2 ^ 53" by (rule power_int_of_nat)
  then show ?thesis by simp
qed

lemma roundPositive_of_int:
  assumes "0 < n" and "n \<le> 2 ^ 53"
  shows "roundPositive (of_int n) = of_int n"
proof -
  define e where "e = ulpExponent (of_int n)"
  have n: "(0::rat) < of_int n" using assms(1) by simp
  have "\<exists>m. (of_int n :: rat) / 2 powi e = of_int m"
  proof (cases "e \<le> 0")
    case True
    then have "(of_int n :: rat) / 2 powi e = of_int n * 2 powi (- e)"
      by (simp add: power_int_minus field_simps)
    also have "\<dots> = of_int n * 2 ^ nat (- e)"
      using True by (simp add: power_int_def)
    also have "\<dots> = of_int (n * 2 ^ nat (- e))" by simp
    finally show ?thesis by blast
  next
    case False
    have "(2::rat) powi binade (of_int n) \<le> of_int n"
      using binade_bounds [OF n] by simp
    also have "\<dots> \<le> 2 powi 53"
      unfolding powi_53 using assms(2) by (simp only: of_int_le_iff)
    finally have "binade (of_int n) \<le> 53"
      using power_int_le_imp_le_exp [of "2::rat" "binade (of_int n)" 53] by simp
    then have "e \<le> 1" by (simp add: e_def ulpExponent_def)
    with False have e1: "e = 1" by simp
    then have "binade (of_int n) = 53" by (simp add: e_def ulpExponent_def max_def split: if_splits)
    then have "(2::rat) powi 53 \<le> of_int n" using binade_bounds [OF n] by simp
    then have "(of_int (2 ^ 53) :: rat) \<le> of_int n" by (simp only: powi_53)
    then have "2 ^ 53 \<le> n" by (simp only: of_int_le_iff)
    then have n53: "n = 2 * 2 ^ 52" using assms(2) by simp
    have "(of_int n :: rat) / 2 powi e = of_int (2 ^ 52)"
      unfolding n53 e1 by simp
    then show ?thesis by blast
  qed
  then obtain m where m: "(of_int n :: rat) / 2 powi e = of_int m" by blast
  then have "roundPositive (of_int n) = of_int n / 2 powi e * 2 powi e"
    by (simp add: roundPositive_def e_def [symmetric])
  then show ?thesis by simp
qed

lemma roundToDouble_of_int:
  assumes "\<bar>n\<bar> \<le> 2 ^ 53"
  shows "roundToDouble (of_int n) = of_int n"
proof -
  consider "n = 0" | "0 < n" | "n < 0" by linarith
  then show ?thesis
  proof cases
    case 1
    then show ?thesis by (simp add: roundToDouble_def)
  next
    case 2
    then show ?thesis using assms roundPositive_of_int [of n] by (simp add: roundToDouble_def)
  next
    case 3
    then have "roundPositive (of_int (- n)) = of_int (- n)"
      using assms by (intro roundPositive_of_int) simp_all
    then show ?thesis using 3 by (simp add: roundToDouble_def)
  qed
qed

section \<open>Printing and parsing batch indices\<close>

lemma isDigit_digitChar: "d < 10 \<Longrightarrow> isDigit (digitChar d)"
  by (simp add: isDigit_def digitChar_def)

lemma digitChar_val: "d < 10 \<Longrightarrow> int (of_char (digitChar d)) - 48 = int d"
  by (simp add: digitChar_def)

lemma digitChar_not_colon: "d < 10 \<Longrightarrow> digitChar d \<noteq> CHR '':''"
proof
  assume d: "d < 10" and "digitChar d = CHR '':''"
  then have "(of_char (digitChar d) :: nat) = of_char CHR '':''" by simp
  with d show False by (simp add: digitChar_def)
qed

lemma numberToString_digits: "\<forall>c \<in> set (numberToString n). isDigit c \<and> c \<noteq> CHR '':''"
proof (induction n rule: numberToString.induct)
  case (1 n)
  show ?case
  proof (cases "n < 10")
    case True
    then show ?thesis
      by (subst numberToString.simps) (simp add: isDigit_digitChar digitChar_not_colon)
  next
    case False
    with 1 show ?thesis
      by (subst numberToString.simps) (simp add: isDigit_digitChar digitChar_not_colon)
  qed
qed

lemma numberToString_nonempty: "numberToString n \<noteq> []"
  by (subst numberToString.simps) simp

lemma digitsValue_snoc: "digitsValue (ds @ [c]) = 10 * digitsValue ds + (int (of_char c) - 48)"
  by (simp add: digitsValue_def)

lemma digitsValue_numberToString: "digitsValue (numberToString n) = int n"
proof (induction n rule: numberToString.induct)
  case (1 n)
  show ?case
  proof (cases "n < 10")
    case True
    then show ?thesis
      by (subst numberToString.simps) (simp add: digitsValue_def digitChar_val)
  next
    case False
    with 1 have "digitsValue (numberToString (n div 10)) = int (n div 10)" by simp
    moreover have "10 * int (n div 10) + int (n mod 10) = int n" by presburger
    ultimately show ?thesis using False
      by (subst numberToString.simps) (simp add: digitsValue_snoc digitChar_val)
  qed
qed

lemma isDigit_not_space: "isDigit c \<Longrightarrow> \<not> isWhiteSpace c"
  by (auto simp: isDigit_def isWhiteSpace_def)

lemma isDigit_not_sign: "isDigit c \<Longrightarrow> c \<noteq> CHR ''-'' \<and> c \<noteq> CHR ''+''"
  by (auto simp: isDigit_def)

lemma parseInt10_digits:
  assumes "ds \<noteq> []" and "\<forall>c \<in> set ds. isDigit c"
  shows "parseInt10 ds = Some (digitsValue ds)"
proof -
  from assms obtain c cs where ds: "ds = c # cs" by (cases ds) auto
  with assms have c: "isDigit c" by simp
  have t: "dropWhile isWhiteSpace ds = ds"
    using ds c by (simp add: isDigit_not_space)
  have tk: "takeWhile isDigit ds = ds"
    using assms by (simp add: takeWhile_eq_all_conv)
  have sg: "hd ds \<noteq> CHR ''-''" "hd ds \<noteq> CHR ''+''"
    using ds isDigit_not_sign[OF c] by simp_all
  show ?thesis
    by (simp add: parseInt10_def Let_def t sg tk assms(1))
qed

lemma parseInt10_numberToString: "parseInt10 (numberToString n) = Some (int n)"
  using parseInt10_digits[of "numberToString n"] numberToString_digits[of n]
    numberToString_nonempty[of n] digitsValue_numberToString[of n]
  by simp

lemma lastSegment_append:
  assumes "\<forall>c \<in> set t. c \<noteq> CHR '':''"
  shows "lastSegment (p @ CHR '':'' # t) = t"
proof -
  have "\<And>x. x \<in> set (rev t) \<Longrightarrow> x \<noteq> CHR '':''"
    using assms by simp
  then have "takeWhile (\<lambda>c. c \<noteq> CHR '':'') (rev t @ CHR '':'' # rev p)
      = rev t @ takeWhile (\<lambda>c. c \<noteq> CHR '':'') (CHR '':'' # rev p)"
    by (rule takeWhile_append2)
  then have "takeWhile (\<lambda>c. c \<noteq> CHR '':'') (rev t @ CHR '':'' # rev p) = rev t"
    by simp
  then show ?thesis by (simp add: lastSegment_def)
qed

lemma keyIndex_networkKey:
  "keyIndex (networkBatchPrefix sid @ numberToString n) = Some (int n)"
proof -
  have e: "networkBatchPrefix sid @ numberToString n
        = (sid @ '':network:batch'') @ CHR '':'' # numberToString n"
    by (simp add: networkBatchPrefix_def)
  have "lastSegment (networkBatchPrefix sid @ numberToString n) = numberToString n"
    unfolding e using numberToString_digits[of n] by (intro lastSegment_append) auto
  then show ?thesis
    by (simp add: keyIndex_def numberToString_nonempty parseInt10_numberToString)
qed

section \<open>Sorting the batch keys\<close>

lemma insertBy_compareIndex:
  assumes "keyIndex x \<noteq> None" and "\<forall>y \<in> set ys. keyIndex y \<noteq> None"
  shows "insertBy compareIndex x ys = insort_key (\<lambda>k. the (keyIndex k)) x ys"
  using assms
  by (induction ys) (auto simp: compareIndex_def isPositive_def)

lemma sortBy_compareIndex:
  assumes "\<forall>y \<in> set xs. keyIndex y \<noteq> None"
  shows "sortBy compareIndex xs = sort_key (\<lambda>k. the (keyIndex k)) xs"
  using assms
proof (induction xs)
  case Nil
  show ?case by (simp add: sortBy_def)
next
  case (Cons x xs)
  then have ih: "foldr (insertBy compareIndex) xs [] = sort_key (\<lambda>k. the (keyIndex k)) xs"
    by (simp add: sortBy_def)
  have "\<forall>y \<in> set (sort_key (\<lambda>k. the (keyIndex k)) xs). keyIndex y \<noteq> None"
    using Cons.prems by simp
  with Cons.prems show ?case
    by (simp add: sortBy_def ih insertBy_compareIndex sort_key_def)
qed

lemma numberToString_inj:
  assumes "numberToString m = numberToString n"
  shows "m = n"
proof -
  have "digitsValue (numberToString m) = digitsValue (numberToString n)"
    using assms by (rule arg_cong)
  then show ?thesis by (simp only: digitsValue_numberToString of_nat_eq_iff)
qed

lemma networkBatchKey_inj: "networkBatchKey sid m = networkBatchKey sid n \<Longrightarrow> m = n"
  by (simp add: networkBatchKey_def numberToString_inj)

lemma keyIndex_networkBatchKey: "keyIndex (networkBatchKey sid n) = Some (int n)"
  by (simp add: networkBatchKey_def keyIndex_networkKey)

lemma startsWith_networkBatchKey: "startsWith (networkBatchKey sid n) (networkBatchPrefix sid)"
  by (simp add: startsWith_def networkBatchKey_def)

lemma idb_get_set: "idb_get k' (idb_set k v db) = (if k' = k then Some v else idb_get k' db)"
  by (induction db) (auto simp: idb_get_def)

lemma idb_keys_set: "set (idb_keys (idb_set k v db)) = insert k (set (idb_keys db))"
  by (induction db) (auto simp: idb_keys_def)

lemma idb_set_sorted:
  "sorted_wrt (<) (idb_keys db) \<Longrightarrow> sorted_wrt (<) (idb_keys (idb_set k v db))"
proof (induction db)
  case Nil
  show ?case by (simp add: idb_keys_def)
next
  case (Cons e db)
  then have ih: "sorted_wrt (<) (idb_keys (idb_set k v db))"
    by (simp add: idb_keys_def)
  have ks: "set (map fst (idb_set k v db)) = insert k (set (map fst db))"
    using idb_keys_set[of k v db] by (simp add: idb_keys_def)
  show ?case
    using Cons.prems ih ks by (auto simp: idb_keys_def)
qed

lemma storeNetworkEventBatches_get:
  "idb_get (networkBatchKey sid m) (storeNetworkEventBatches sid i bs db) =
     (if i \<le> m \<and> m < i + length bs then Some (NetworkEvents (bs ! (m - i)))
      else idb_get (networkBatchKey sid m) db)"
proof (induction bs arbitrary: i db)
  case Nil
  show ?case by auto
next
  case (Cons b bs)
  have step: "idb_get (networkBatchKey sid m) (storeNetworkEventBatch sid i b db) =
      (if m = i then Some (NetworkEvents b) else idb_get (networkBatchKey sid m) db)"
    by (auto simp: storeNetworkEventBatch_def networkBatchKey_def [symmetric] idb_get_set
        dest: networkBatchKey_inj)
  show ?case
    unfolding storeNetworkEventBatches.simps Cons.IH step
    by (auto simp: nth_Cons')
qed

lemma storeNetworkEventBatches_keys:
  "set (idb_keys (storeNetworkEventBatches sid i bs db)) =
     set (idb_keys db) \<union> networkBatchKey sid ` {i ..< i + length bs}"
proof (induction bs arbitrary: i db)
  case Nil
  show ?case by simp
next
  case (Cons b bs)
  have "{i ..< i + length (b # bs)} = insert i {Suc i ..< Suc i + length bs}"
    by auto
  then show ?case
    by (simp add: Cons.IH storeNetworkEventBatch_def idb_keys_set networkBatchKey_def)
qed

lemma storeNetworkEventBatches_sorted:
  "sorted_wrt (<) (idb_keys db) \<Longrightarrow>
   sorted_wrt (<) (idb_keys (storeNetworkEventBatches sid i bs db))"
  by (induction bs arbitrary: i db) (simp_all add: storeNetworkEventBatch_def idb_set_sorted)

lemma sorted_batch_keys:
  assumes d: "distinct xs" and s: "set xs = networkBatchKey sid ` {0 ..< n}"
  shows "sortBy compareIndex xs = map (networkBatchKey sid) [0 ..< n]"
proof -
  let ?f = "\<lambda>k. the (keyIndex k)"
  let ?ys = "map (networkBatchKey sid) [0 ..< n]"
  have some: "\<forall>y \<in> set xs. keyIndex y \<noteq> None"
    using s by (auto simp: keyIndex_networkBatchKey)
  have f: "\<And>j. ?f (networkBatchKey sid j) = int j"
    by (simp add: keyIndex_networkBatchKey)
  have inj: "inj_on ?f (set (sort_key ?f xs) \<union> set ?ys)"
    using s by (auto simp: inj_on_def f)
  have inj': "inj_on ?f (set (sort_key ?f xs))"
    using inj by (rule inj_on_subset) simp
  have "sort_key ?f xs = ?ys"
  proof (rule map_sorted_distinct_set_unique[OF inj])
    show "sorted (map ?f (sort_key ?f xs))" by (rule sorted_sort_key)
    show "distinct (map ?f (sort_key ?f xs))"
      using d inj' by (simp add: distinct_map)
    have m: "map ?f ?ys = map int [0 ..< n]"
      by (simp add: f)
    show "sorted (map ?f ?ys)"
      unfolding m by (simp add: sorted_map sorted_wrt_map)
    show "distinct (map ?f ?ys)"
      unfolding m by (simp add: distinct_map inj_on_def)
    show "set (sort_key ?f xs) = set ?ys"
      using s by simp
  qed
  then show ?thesis
    by (simp add: sortBy_compareIndex[OF some])
qed

section \<open>Reading the batches back\<close>

text \<open>
  Claim C10. In a store that holds no network batch of the session yet, after the
  batches \<open>bs\<close> were stored under the indices \<open>0, 1, ..., length bs - 1\<close>,
  \<open>getNetworkEvents\<close> returns their concatenation in the order of the indices, for
  any number of batches: the keys are sorted by the integer parsed from their last
  segment, not as strings.
\<close>

theorem getNetworkEvents_roundtrip:
  assumes ord: "sorted_wrt (<) (idb_keys db)"
    and fresh: "\<forall>key \<in> set (idb_keys db). \<not> startsWith key (networkBatchPrefix sid)"
  shows "getNetworkEvents sid (storeNetworkEventBatches sid 0 bs db) = concat bs"
proof -
  let ?db = "storeNetworkEventBatches sid 0 bs db"
  let ?xs = "filter (\<lambda>key. startsWith key (networkBatchPrefix sid)) (idb_keys ?db)"
  have "sorted_wrt (<) (idb_keys ?db)"
    using ord by (rule storeNetworkEventBatches_sorted)
  then have "distinct (idb_keys ?db)"
    by (simp add: strict_sorted_iff)
  then have d: "distinct ?xs" by simp
  have s: "set ?xs = networkBatchKey sid ` {0 ..< length bs}"
    using fresh
    by (auto simp: storeNetworkEventBatches_keys startsWith_networkBatchKey)
  have srt: "sortBy compareIndex ?xs = map (networkBatchKey sid) [0 ..< length bs]"
    using d s by (rule sorted_batch_keys)
  have at: "map (networkBatchAt ?db) (map (networkBatchKey sid) [0 ..< length bs]) = bs"
    by (rule nth_equalityI) (simp_all add: networkBatchAt_def storeNetworkEventBatches_get)
  show ?thesis
    by (simp only: getNetworkEvents_def Let_def srt at)
qed


theorem getNetworkEvents_roundtrip_witness:
  "sorted_wrt (<) (idb_keys []) \<and>
   filter (\<lambda>key. startsWith key (networkBatchPrefix ''1-1000'')) (idb_keys []) = [] \<and>
   getNetworkEvents ''1-1000''
     (storeNetworkEventBatches ''1-1000'' 0 (map (\<lambda>i. [sampleEvent i]) [0 ..< 12]) [])
   = concat (map (\<lambda>i. [sampleEvent i]) [0 ..< 12])"
  using getNetworkEvents_roundtrip [of "[]" "''1-1000''" "map (\<lambda>i. [sampleEvent i]) [0 ..< 12]"]
  by (simp add: idb_keys_def)

section \<open>Projections of the state\<close>

lemma getSession_updateSession:
  "getSession (updateSession sid f s) sid' =
     (if sid' = sid then map_option f (getSession s sid') else getSession s sid')"
proof -
  have "map_of (map (\<lambda>e. if fst e = sid then (fst e, f (snd e)) else e) xs) sid' =
      (if sid' = sid then map_option f (map_of xs sid') else map_of xs sid')" for xs
    by (induction xs) auto
  then show ?thesis by (simp add: getSession_def updateSession_def)
qed

lemma updateSession_other [simp]:
  "networkEventBuffers (updateSession sid f s) = networkEventBuffers s"
  "consoleEventBuffers (updateSession sid f s) = consoleEventBuffers s"
  "domEventBuffers (updateSession sid f s) = domEventBuffers s"
  "pendingNetworkRequests (updateSession sid f s) = pendingNetworkRequests s"
  "flushTimers (updateSession sid f s) = flushTimers s"
  "timers (updateSession sid f s) = timers s"
  "nextTimer (updateSession sid f s) = nextTimer s"
  "networkBatchIndices (updateSession sid f s) = networkBatchIndices s"
  "consoleBatchIndices (updateSession sid f s) = consoleBatchIndices s"
  "domBatchIndices (updateSession sid f s) = domBatchIndices s"
  "flushInProgress (updateSession sid f s) = flushInProgress s"
  "tabIdToSessionId (updateSession sid f s) = tabIdToSessionId s"
  "indexedDB (updateSession sid f s) = indexedDB s"
  "continuations (updateSession sid f s) = continuations s"
  by (simp_all add: updateSession_def)

lemma getSession_fields [simp]:
  "getSession (s\<lparr>networkEventBuffers := a\<rparr>) = getSession s"
  "getSession (s\<lparr>consoleEventBuffers := b\<rparr>) = getSession s"
  "getSession (s\<lparr>domEventBuffers := c\<rparr>) = getSession s"
  "getSession (s\<lparr>pendingNetworkRequests := d\<rparr>) = getSession s"
  "getSession (s\<lparr>flushInProgress := e\<rparr>) = getSession s"
  "getSession (s\<lparr>indexedDB := f\<rparr>) = getSession s"
  "getSession (s\<lparr>continuations := g\<rparr>) = getSession s"
  "getSession (s\<lparr>networkBatchIndices := h\<rparr>) = getSession s"
  "getSession (s\<lparr>consoleBatchIndices := i\<rparr>) = getSession s"
  "getSession (s\<lparr>domBatchIndices := j\<rparr>) = getSession s"
  "getSession (s\<lparr>tabIdToSessionId := k\<rparr>) = getSession s"
  "getSession (s\<lparr>timers := l\<rparr>) = getSession s"
  "getSession (s\<lparr>flushTimers := m\<rparr>) = getSession s"
  "getSession (s\<lparr>nextTimer := n\<rparr>) = getSession s"
  by (simp_all add: getSession_def fun_eq_iff)

text \<open>A flush that finds something in the network buffer suspends at the network write.\<close>

lemma flushTelemetryBuffers_network:
  assumes "networkEventBuffers s sid = Some buffer" and "buffer \<noteq> []"
  shows "flushTelemetryBuffers sid now s =
     (if flushInProgress s sid \<noteq> None then s
      else suspendFlush sid NetworkWrite (indexOrZero (networkBatchIndices s sid))
             buffer (takenFrom (consoleEventBuffers s sid)) (takenFrom (domEventBuffers s sid))
             (s\<lparr>networkEventBuffers := spliced (networkEventBuffers s) sid,
                consoleEventBuffers := spliced (consoleEventBuffers s) sid,
                domEventBuffers := spliced (domEventBuffers s) sid\<rparr>))"
  using assms
  by (simp add: flushTelemetryBuffers_def doFlushTelemetryBuffers_def flushNetwork_def takenFrom_def)

lemma flushTelemetryBuffers_network_keeps:
  assumes "networkEventBuffers s sid = Some buffer" and "buffer \<noteq> []"
  shows "getSession (flushTelemetryBuffers sid now s) = getSession s"
    and "pendingNetworkRequests (flushTelemetryBuffers sid now s) = pendingNetworkRequests s"
  by (simp_all add: flushTelemetryBuffers_network[OF assms] suspendFlush_def)

lemma pushNetworkEvent_sessions:
  assumes "networkEventBuffers s sid = Some buffer"
  shows "getSession (pushNetworkEvent sid ev now s) sid' =
     (if sid' = sid
      then map_option (\<lambda>session. session\<lparr>networkEventCount := networkEventCount session + 1\<rparr>) (getSession s sid')
      else getSession s sid')"
  using assms
  by (simp add: pushNetworkEvent_def Let_def getSession_updateSession
      flushTelemetryBuffers_network_keeps(1)[where buffer = "buffer @ [ev]"])

lemma pushNetworkEvent_pending:
  "pendingNetworkRequests (pushNetworkEvent sid ev now s) = pendingNetworkRequests s"
proof (cases "networkEventBuffers s sid")
  case None
  then show ?thesis by (simp add: pushNetworkEvent_def)
next
  case (Some buffer)
  then show ?thesis
    by (simp add: pushNetworkEvent_def Let_def
        flushTelemetryBuffers_network_keeps(2)[where buffer = "buffer @ [ev]"])
qed


lemma deletePending_fields [simp]:
  "getSession (deletePending sid rid s) = getSession s"
  "networkEventBuffers (deletePending sid rid s) = networkEventBuffers s"
  by (simp_all add: deletePending_def setPending_def split: option.splits)



section \<open>The filter of completed network events\<close>









lemma image_404_retained_image_200_dropped:
  "map_option (map requestId)
     (networkEventBuffers
        (handleNetworkResponse 1 (sampleResponse ''r1'' ''Image'' 404) 1100 pendingExample) ''1-1000'')
     = Some [''r1'']
   \<and> map_option networkEventCount
       (getSession (handleNetworkResponse 1 (sampleResponse ''r1'' ''Image'' 404) 1100 pendingExample)
          ''1-1000'') = Some 1
   \<and> networkEventBuffers
       (handleNetworkResponse 1 (sampleResponse ''r1'' ''Image'' 200) 1100 pendingExample) ''1-1000''
       = Some []
   \<and> map_option networkEventCount
       (getSession (handleNetworkResponse 1 (sampleResponse ''r1'' ''Image'' 200) 1100 pendingExample)
          ''1-1000'') = Some 0
   \<and> pendingEntry pendingExample 1 ''r1'' \<noteq> None
   \<and> pendingEntry (handleNetworkResponse 1 (sampleResponse ''r1'' ''Image'' 200) 1100 pendingExample)
       1 ''r1'' = None"
  by code_simp

section \<open>One completed event per request\<close>

lemma pendingEntry_None_response:
  "pendingEntry s tab (rs_requestId params) = None \<Longrightarrow> handleNetworkResponse tab params now s = s"
  by (auto simp: pendingEntry_def handleNetworkResponse_def split: option.splits)

lemma pendingEntry_None_failed:
  "pendingEntry s tab (lf_requestId params) = None \<Longrightarrow> handleNetworkLoadingFailed tab params now s = s"
  by (auto simp: pendingEntry_def handleNetworkLoadingFailed_def split: option.splits)

lemma completes_noop:
  "completes tab rid e \<Longrightarrow> pendingEntry s tab rid = None \<Longrightarrow> step e s = s"
  by (cases e) (auto simp: pendingEntry_None_response pendingEntry_None_failed)

lemma run_completes_noop:
  assumes "list_all (completes tab rid) es" and "pendingEntry s tab rid = None"
  shows "run es s = s"
  using assms(1)
proof (induction es)
  case Nil
  show ?case by (simp add: run_def)
next
  case (Cons e es)
  then have "step e s = s" and "run es s = s"
    using assms(2) completes_noop[of tab rid e s] by simp_all
  then show ?case by (simp add: run_def)
qed

lemma recordingSession_fields [simp]:
  "recordingSession (s\<lparr>pendingNetworkRequests := d\<rparr>) = recordingSession s"
  by (simp add: recordingSession_def fun_eq_iff cong: option.case_cong)

lemma deletePending_tab [simp]:
  "tabIdToSessionId (deletePending sid rid s) = tabIdToSessionId s"
  by (simp add: deletePending_def setPending_def split: option.splits)

lemma pushNetworkEvent_tab:
  "tabIdToSessionId (pushNetworkEvent sid ev now s) = tabIdToSessionId s"
proof (cases "networkEventBuffers s sid")
  case None
  then show ?thesis by (simp add: pushNetworkEvent_def)
next
  case (Some buffer)
  have "buffer @ [ev] \<noteq> []" by simp
  then show ?thesis
    using Some
    by (simp add: pushNetworkEvent_def Let_def flushTelemetryBuffers_network suspendFlush_def)
qed

text \<open>After a delete in the table of the tab's session, the tab has no entry for the request.\<close>

lemma pendingEntry_deleted:
  assumes "tabIdToSessionId s' = tabIdToSessionId s"
    and "tabIdToSessionId s tab = Some sid"
    and "pendingNetworkRequests s' = pendingNetworkRequests s"
  shows "pendingEntry (deletePending sid rid s') tab rid = None"
  using assms
  by (auto simp: pendingEntry_def recordingSession_def deletePending_def setPending_def
      split: option.splits)

lemma recordingSession_tab:
  "recordingSession s tab = Some (sid, session) \<Longrightarrow> tabIdToSessionId s tab = Some sid"
  by (auto simp: recordingSession_def split: option.splits if_splits)

lemma handleNetworkResponse_count:
  assumes "getSession s sid' = Some a"
  shows "\<exists>b. getSession (handleNetworkResponse tab params now s) sid' = Some b
       \<and> networkEventCount a \<le> networkEventCount b \<and> networkEventCount b \<le> networkEventCount a + 1"
proof (cases "networkEventBuffers s (fst (the (recordingSession s tab)))")
  case None
  then show ?thesis
    using assms
    by (auto simp: handleNetworkResponse_def Let_def pushNetworkEvent_def split: option.splits)
next
  case (Some buffer)
  then show ?thesis
    using assms
    by (auto simp: handleNetworkResponse_def Let_def pushNetworkEvent_sessions split: option.splits)
qed

lemma handleNetworkLoadingFailed_count:
  assumes "getSession s sid' = Some a"
  shows "\<exists>b. getSession (handleNetworkLoadingFailed tab params now s) sid' = Some b
       \<and> networkEventCount a \<le> networkEventCount b \<and> networkEventCount b \<le> networkEventCount a + 1"
proof (cases "networkEventBuffers s (fst (the (recordingSession s tab)))")
  case None
  then show ?thesis
    using assms
    by (auto simp: handleNetworkLoadingFailed_def Let_def pushNetworkEvent_def split: option.splits)
next
  case (Some buffer)
  then show ?thesis
    using assms
    by (auto simp: handleNetworkLoadingFailed_def Let_def pushNetworkEvent_sessions split: option.splits)
qed

lemma handleNetworkResponse_entry_gone:
  "pendingEntry (handleNetworkResponse tab params now s) tab (rs_requestId params) = None"
proof (cases "pendingEntry s tab (rs_requestId params)")
  case None
  then show ?thesis by (simp add: pendingEntry_None_response)
next
  case (Some partialEvent)
  then obtain sid session pendingRequests where
    rec: "recordingSession s tab = Some (sid, session)"
    and pend: "pendingNetworkRequests s sid = Some pendingRequests"
    and entry: "pendingRequests (rs_requestId params) = Some partialEvent"
    by (auto simp: pendingEntry_def split: option.splits)
  have tab: "tabIdToSessionId s tab = Some sid"
    using rec by (rule recordingSession_tab)
  show ?thesis
    using rec pend entry tab
    by (simp add: handleNetworkResponse_def Let_def pendingEntry_deleted
        pushNetworkEvent_tab pushNetworkEvent_pending)
qed

lemma handleNetworkLoadingFailed_entry_gone:
  "pendingEntry (handleNetworkLoadingFailed tab params now s) tab (lf_requestId params) = None"
proof (cases "pendingEntry s tab (lf_requestId params)")
  case None
  then show ?thesis by (simp add: pendingEntry_None_failed)
next
  case (Some partialEvent)
  then obtain sid session pendingRequests where
    rec: "recordingSession s tab = Some (sid, session)"
    and pend: "pendingNetworkRequests s sid = Some pendingRequests"
    and entry: "pendingRequests (lf_requestId params) = Some partialEvent"
    by (auto simp: pendingEntry_def split: option.splits)
  have tab: "tabIdToSessionId s tab = Some sid"
    using rec by (rule recordingSession_tab)
  show ?thesis
    using rec pend entry tab
    by (simp add: handleNetworkLoadingFailed_def Let_def pendingEntry_deleted
        pushNetworkEvent_tab pushNetworkEvent_pending)
qed

lemma completes_step:
  assumes "completes tab rid e" and "getSession s sid = Some a"
  shows "pendingEntry (step e s) tab rid = None
     \<and> (\<exists>b. getSession (step e s) sid = Some b
          \<and> networkEventCount a \<le> networkEventCount b \<and> networkEventCount b \<le> networkEventCount a + 1)"
proof (cases e)
  case (ResponseReceived tab' params now)
  then show ?thesis
    using assms(1) handleNetworkResponse_count[OF assms(2), of tab params now]
      handleNetworkResponse_entry_gone[of tab params now s]
    by auto
next
  case (LoadingFailed tab' params now)
  then show ?thesis
    using assms(1) handleNetworkLoadingFailed_count[OF assms(2), of tab params now]
      handleNetworkLoadingFailed_entry_gone[of tab params now s]
    by auto
qed (use assms(1) in simp_all)

text \<open>
  Claim C9. After a response or a failure for a request, the tab has no pending entry
  for it, whatever branch the handler took; and over any sequence of responses and
  failures for the same request the event counter of a session grows by at most one.
\<close>

theorem pending_entry_deleted_once:
  assumes "list_all (completes tab rid) es" and "getSession s sid = Some a"
  shows "(es \<noteq> [] \<longrightarrow> pendingEntry (run es s) tab rid = None)
     \<and> (\<exists>b. getSession (run es s) sid = Some b \<and> networkEventCount b \<le> networkEventCount a + 1)"
proof (cases es)
  case Nil
  with assms show ?thesis by (simp add: run_def)
next
  case (Cons e es')
  with assms have e: "completes tab rid e" and es': "list_all (completes tab rid) es'"
    by simp_all
  from completes_step[OF e assms(2)] have gone: "pendingEntry (step e s) tab rid = None"
    and cnt: "\<exists>b. getSession (step e s) sid = Some b \<and> networkEventCount b \<le> networkEventCount a + 1"
    by auto
  have "run es s = run es' (step e s)"
    using Cons by (simp add: run_def)
  also have "\<dots> = step e s"
    using es' gone by (rule run_completes_noop)
  finally show ?thesis
    using gone cnt by simp
qed


theorem pending_entry_deleted_once_witness:
  "pendingEntry
     (run [ResponseReceived 1 (sampleResponse ''r1'' ''XHR'' 200) 1100,
           LoadingFailed 1 (sampleFailure ''r1'') 1200,
           ResponseReceived 1 (sampleResponse ''r1'' ''XHR'' 200) 1300] pendingExample) 1 ''r1'' = None
   \<and> (\<exists>b. getSession
             (run [ResponseReceived 1 (sampleResponse ''r1'' ''XHR'' 200) 1100,
                   LoadingFailed 1 (sampleFailure ''r1'') 1200,
                   ResponseReceived 1 (sampleResponse ''r1'' ''XHR'' 200) 1300] pendingExample)
             ''1-1000'' = Some b
          \<and> networkEventCount b \<le> networkEventCount (the (getSession pendingExample ''1-1000'')) + 1)"
proof -
  have c: "list_all (completes 1 ''r1'')
      [ResponseReceived 1 (sampleResponse ''r1'' ''XHR'' 200) 1100,
       LoadingFailed 1 (sampleFailure ''r1'') 1200,
       ResponseReceived 1 (sampleResponse ''r1'' ''XHR'' 200) 1300]"
    by (simp add: sampleResponse_def sampleFailure_def)
  have g: "getSession pendingExample ''1-1000'' = Some (the (getSession pendingExample ''1-1000''))"
  proof -
    have "getSession pendingExample ''1-1000'' \<noteq> None" by code_simp
    then show ?thesis by simp
  qed
  show ?thesis
    using pending_entry_deleted_once [OF c g] by simp
qed


section \<open>Video offsets\<close>

lemma flushTelemetryBuffers_console:
  assumes "consoleEventBuffers s sid = Some buffer" and "buffer \<noteq> []"
  shows "consoleEventBuffers (flushTelemetryBuffers sid now s) sid =
           (if flushInProgress s sid \<noteq> None then Some buffer else Some [])"
    and "getSession (flushTelemetryBuffers sid now s) = getSession s"
  using assms
  by (simp_all add: flushTelemetryBuffers_def doFlushTelemetryBuffers_def flushNetwork_def
      flushConsole_def takenFrom_def suspendFlush_def spliced_def)

lemma pushConsoleEvent_buffer:
  assumes "consoleEventBuffers s sid = Some buffer" and "length buffer + 1 < BUFFER_FLUSH_SIZE"
  shows "consoleEventBuffers (pushConsoleEvent sid ev now s) sid = Some (buffer @ [ev])"
  using assms by (simp add: pushConsoleEvent_def Let_def)

text \<open>
  Claim C5. The video offset of a wall-clock reading \<open>w\<close> in milliseconds is exactly
  \<open>w - T0\<close>: negative when \<open>w < T0\<close>, and beyond the length of the session when
  \<open>w\<close> lies after the stop time. For a reading in seconds it is
  \<open>round (seconds * 1000) - T0\<close>. The handlers keep that value as it is: the entry
  that \<open>handleNetworkRequestWillBeSent\<close> stores and the event that
  \<open>handleConsoleAPICalled\<close> buffers carry it unclamped.
\<close>

theorem videoOffset_signed:
  assumes rec: "recordingSession s tab = Some (sid, session)"
    and pend: "pendingNetworkRequests s sid = Some pendingRequests"
    and buf: "consoleEventBuffers s sid = Some buffer"
    and room: "length buffer + 1 < BUFFER_FLUSH_SIZE"
  shows "calculateVideoTimestamp T0 w = w - T0
     \<and> (w < T0 \<longrightarrow> calculateVideoTimestamp T0 w < 0)
     \<and> (stopTime < w \<longrightarrow> stopTime - T0 < calculateVideoTimestamp T0 w)
     \<and> cdpWallTimeToVideoOffset secs T0 = round (secs * 1000) - T0
     \<and> (\<exists>p. pendingEntry (handleNetworkRequestWillBeSent tab params s) tab (rq_requestId params) = Some p
            \<and> p_videoTimestamp p = Some (round (rq_wallTime params * 1000) - sessionStartTime session))
     \<and> (\<exists>ev. consoleEventBuffers (handleConsoleAPICalled tab cparams now s) sid = Some (buffer @ [ev])
            \<and> c_videoTimestamp ev = now - sessionStartTime session)"
proof -
  have net: "\<exists>p. pendingEntry (handleNetworkRequestWillBeSent tab params s) tab (rq_requestId params) = Some p
            \<and> p_videoTimestamp p = Some (round (rq_wallTime params * 1000) - sessionStartTime session)"
    using rec pend
    by (simp add: handleNetworkRequestWillBeSent_def pendingEntry_def setPending_def Let_def
        cdpWallTimeToVideoOffset_def)
  have con: "\<exists>ev. consoleEventBuffers (handleConsoleAPICalled tab cparams now s) sid = Some (buffer @ [ev])
            \<and> c_videoTimestamp ev = now - sessionStartTime session"
    using rec buf room
    by (simp add: handleConsoleAPICalled_def pushConsoleEvent_buffer calculateVideoTimestamp_def)
  show ?thesis
    using net con by (simp add: calculateVideoTimestamp_def cdpWallTimeToVideoOffset_def)
qed

lemma recordingExample_session:
  "recordingSession recordingExample 1 = Some (''1-1000'', the (getSession recordingExample ''1-1000''))"
  by code_simp

lemma recordingExample_table:
  "pendingNetworkRequests recordingExample ''1-1000''
     = Some (the (pendingNetworkRequests recordingExample ''1-1000''))"
proof -
  have "pendingNetworkRequests recordingExample ''1-1000'' \<noteq> None" by code_simp
  then show ?thesis by simp
qed

lemma recordingExample_console: "consoleEventBuffers recordingExample ''1-1000'' = Some []"
  by code_simp

lemma recordingExample_start: "sessionStartTime (the (getSession recordingExample ''1-1000'')) = 1000"
  by code_simp

theorem videoOffset_signed_witness:
  "calculateVideoTimestamp 1000 900 = - 100
   \<and> cdpWallTimeToVideoOffset (1 / 2) 1000 = - 500
   \<and> (\<exists>p. pendingEntry (handleNetworkRequestWillBeSent 1 (sampleRequest ''r1'' (1 / 2)) recordingExample)
              1 ''r1'' = Some p
          \<and> p_videoTimestamp p = Some (- 500))
   \<and> (\<exists>ev. consoleEventBuffers (handleConsoleAPICalled 1 sampleConsole 900 recordingExample) ''1-1000''
              = Some [ev]
          \<and> c_videoTimestamp ev = - 100)"
proof -
  have room: "length ([] :: ConsoleEvent list) + 1 < BUFFER_FLUSH_SIZE"
    by (simp add: BUFFER_FLUSH_SIZE_def)
  have r: "round ((1 / 2 :: rat) * 1000) = 500"
    by simp
  show ?thesis
    using videoOffset_signed
      [OF recordingExample_session recordingExample_table recordingExample_console room,
        where ?T0.0 = 1000 and w = 900 and secs = "1 / 2"
          and params = "sampleRequest ''r1'' (1 / 2)" and cparams = sampleConsole and now = 900]
    by (simp add: recordingExample_start sampleRequest_def r)
qed

section \<open>The single-flight flush\<close>

lemma settleAwaiters_nobody:
  assumes "nobodyAwaits sid s"
  shows "settleAwaiters sid ok s = s"
proof -
  have a: "filter (awaitsFlush sid) (continuations s) = []"
    using assms by (simp add: nobodyAwaits_def list_all_iff filter_empty_conv)
  have b: "filter (\<lambda>c. \<not> awaitsFlush sid c) (continuations s) = continuations s"
    using assms by (simp add: nobodyAwaits_def list_all_iff)
  show ?thesis
    by (simp add: settleAwaiters_def a b)
qed

lemma nobodyAwaits_fields [simp]:
  "nobodyAwaits sid (s\<lparr>networkEventBuffers := a\<rparr>) = nobodyAwaits sid s"
  "nobodyAwaits sid (s\<lparr>consoleEventBuffers := b\<rparr>) = nobodyAwaits sid s"
  "nobodyAwaits sid (s\<lparr>domEventBuffers := c\<rparr>) = nobodyAwaits sid s"
  "nobodyAwaits sid (s\<lparr>pendingNetworkRequests := d\<rparr>) = nobodyAwaits sid s"
  "nobodyAwaits sid (s\<lparr>flushInProgress := e\<rparr>) = nobodyAwaits sid s"
  "nobodyAwaits sid (s\<lparr>indexedDB := f\<rparr>) = nobodyAwaits sid s"
  "nobodyAwaits sid (s\<lparr>networkBatchIndices := h\<rparr>) = nobodyAwaits sid s"
  "nobodyAwaits sid (s\<lparr>consoleBatchIndices := i\<rparr>) = nobodyAwaits sid s"
  "nobodyAwaits sid (s\<lparr>domBatchIndices := j\<rparr>) = nobodyAwaits sid s"
  by (simp_all add: nobodyAwaits_def)

lemma nobodyAwaits_ttlCleanup [simp]: "nobodyAwaits sid (ttlCleanup sid' now s) = nobodyAwaits sid s"
  by (simp add: ttlCleanup_def split: option.splits)

lemma finishFlush_nobody:
  assumes "nobodyAwaits sid s"
  shows "finishFlush sid now s =
     (ttlCleanup sid now s)\<lparr>flushInProgress := (flushInProgress (ttlCleanup sid now s))(sid := None)\<rparr>"
  using assms by (simp add: finishFlush_def Let_def settleAwaiters_nobody)

lemma ttlCleanup_fields [simp]:
  "indexedDB (ttlCleanup sid now s) = indexedDB s"
  "networkEventBuffers (ttlCleanup sid now s) = networkEventBuffers s"
  "consoleEventBuffers (ttlCleanup sid now s) = consoleEventBuffers s"
  "domEventBuffers (ttlCleanup sid now s) = domEventBuffers s"
  "flushInProgress (ttlCleanup sid now s) = flushInProgress s"
  "networkBatchIndices (ttlCleanup sid now s) = networkBatchIndices s"
  "consoleBatchIndices (ttlCleanup sid now s) = consoleBatchIndices s"
  "domBatchIndices (ttlCleanup sid now s) = domBatchIndices s"
  "continuations (ttlCleanup sid now s) = continuations s"
  "sessions (ttlCleanup sid now s) = sessions s"
  "tabIdToSessionId (ttlCleanup sid now s) = tabIdToSessionId s"
  by (simp_all add: ttlCleanup_def split: option.splits)


lemmas flush_unfold =
  settled3_def run_def flushTelemetryBuffers_def doFlushTelemetryBuffers_def
  flushNetwork_def flushConsole_def flushDOM_def suspendFlush_def flushWriteSettled_def
  finishFlush_nobody Let_def

lemma takenFrom_emptied [simp]: "takenFrom (map_option (\<lambda>b. []) x) = []"
  by (cases x) (simp_all add: takenFrom_def)

lemma takenFrom_Nil_spliced:
  "takenFrom (buffers sid) = [] \<Longrightarrow> spliced buffers sid = buffers"
  by (auto simp: takenFrom_def spliced_def split: option.splits)






lemma two_concurrent_flushes_one_batch:
  "map (\<lambda>e. (fst e, case snd e of NetworkEvents b \<Rightarrow> map requestId b | _ \<Rightarrow> []))
     (indexedDB (settled3 ''1-1000'' 11010 11020 11030
        (flushTelemetryBuffers ''1-1000'' 11005 (flushTelemetryBuffers ''1-1000'' 11000 bufferedExample))))
     = [(''1-1000:network:batch:0'', [''r1''])]"
  by code_simp

section \<open>The sweep of the pending table\<close>










section \<open>Batch indices\<close>







lemma indexOrZero_simps [simp]: "indexOrZero (Some n) = n" "indexOrZero None = 0"
  by (simp_all add: indexOrZero_def)

lemma batchIndices_fields [simp]:
  "batchIndices channel (s\<lparr>networkEventBuffers := a\<rparr>) = batchIndices channel s"
  "batchIndices channel (s\<lparr>consoleEventBuffers := b\<rparr>) = batchIndices channel s"
  "batchIndices channel (s\<lparr>domEventBuffers := c\<rparr>) = batchIndices channel s"
  "batchIndices channel (s\<lparr>pendingNetworkRequests := d\<rparr>) = batchIndices channel s"
  "batchIndices channel (s\<lparr>flushInProgress := e\<rparr>) = batchIndices channel s"
  "batchIndices channel (s\<lparr>indexedDB := f\<rparr>) = batchIndices channel s"
  "batchIndices channel (s\<lparr>continuations := k\<rparr>) = batchIndices channel s"
  "batchIndices channel (ttlCleanup sid now s) = batchIndices channel s"
  "batchIndices channel (updateSession sid g s) = batchIndices channel s"
  by (cases channel; simp)+


lemma quiet_fields [simp]:
  "quiet (s\<lparr>networkEventBuffers := a\<rparr>) = quiet s"
  "quiet (s\<lparr>consoleEventBuffers := b\<rparr>) = quiet s"
  "quiet (s\<lparr>domEventBuffers := c\<rparr>) = quiet s"
  "quiet (s\<lparr>pendingNetworkRequests := d\<rparr>) = quiet s"
  "quiet (s\<lparr>flushInProgress := e\<rparr>) = quiet s"
  "quiet (s\<lparr>indexedDB := f\<rparr>) = quiet s"
  "quiet (s\<lparr>networkBatchIndices := h\<rparr>) = quiet s"
  "quiet (s\<lparr>consoleBatchIndices := i\<rparr>) = quiet s"
  "quiet (s\<lparr>domBatchIndices := j\<rparr>) = quiet s"
  "quiet (ttlCleanup sid now s) = quiet s"
  "quiet (updateSession sid g s) = quiet s"
  by (simp_all add: quiet_def)









lemma batchInvariant_fields [simp]:
  "batchInvariant sid (s\<lparr>networkEventBuffers := a\<rparr>) = batchInvariant sid s"
  "batchInvariant sid (s\<lparr>consoleEventBuffers := b\<rparr>) = batchInvariant sid s"
  "batchInvariant sid (s\<lparr>domEventBuffers := c\<rparr>) = batchInvariant sid s"
  "batchInvariant sid (s\<lparr>pendingNetworkRequests := d\<rparr>) = batchInvariant sid s"
  "batchInvariant sid (updateSession sid' g s) = batchInvariant sid s"
  "batchInvariant sid (setPending sid' m s) = batchInvariant sid s"
  "batchInvariant sid (deletePending sid' rid s) = batchInvariant sid s"
  by (simp_all add: batchInvariant_def batchesContiguous_def currentIndex_def quiet_def
      setPending_def deletePending_def split: option.splits)





text \<open>
  \<open>MEDIA_READY\<close> for a session with the debugger attached sets the three indices to 0;
  on a store without batches of the session the batches are then contiguous from 0.
\<close>

lemma batchInvariant_handleMediaReady:
  assumes "getSession s sid = Some session" and "debuggerAttached session"
    and "\<And>channel j. idb_get (batchKey channel sid j) (indexedDB s) = None"
    and "quiet s" and "flushInProgress s sid = None"
  shows "batchInvariant sid (handleMediaReady sid s)"
  unfolding batchInvariant_def batchesContiguous_def
proof (intro conjI allI impI)
  fix channel j
  show "(idb_get (batchKey channel sid j) (indexedDB (handleMediaReady sid s)) \<noteq> None)
      = (j < currentIndex channel (handleMediaReady sid s) sid)"
    using assms(1-3) by (cases channel) (simp_all add: handleMediaReady_def Let_def currentIndex_def)
next
  show "quiet (handleMediaReady sid s)"
    using assms(1,2,4) by (simp add: handleMediaReady_def Let_def quiet_def)
next
  fix task
  assume "flushInProgress (handleMediaReady sid s) sid = Some task"
  then show "batchIndex task = currentIndex (stage task) (handleMediaReady sid s) sid"
    using assms(1,2,5) by (simp add: handleMediaReady_def Let_def)
qed





lemma two_flushes_two_batches:
  "map fst (indexedDB (run
     [RequestWillBeSent 1 (sampleRequest ''r1'' (21 / 20)),
      ResponseReceived 1 (sampleResponse ''r1'' ''XHR'' 200) 1100,
      TimerFired 1 11000, FlushWriteSettled ''1-1000'' True 11010,
      RequestWillBeSent 1 (sampleRequest ''r2'' 12),
      ResponseReceived 1 (sampleResponse ''r2'' ''Fetch'' 500) 12100,
      TimerFired 1 21000, FlushWriteSettled ''1-1000'' True 21010] recordingExample))
     = [''1-1000:network:batch:0'', ''1-1000:network:batch:1'']"
  by code_simp

section \<open>The session registry\<close>









lemma awaitersInFlight_frame:
  "continuations s' = continuations s \<Longrightarrow> flushInProgress s' = flushInProgress s \<Longrightarrow>
   awaitersInFlight s' = awaitersInFlight s"
  by (simp add: awaitersInFlight_def)


lemma sessions_fields [simp]:
  "sessions (ttlCleanup sid now s) = sessions s"
  by (simp add: ttlCleanup_def split: option.splits)



lemma cleanupTelemetry_fields [simp]:
  "sessions (cleanupTelemetry sid s) = sessions s"
  "continuations (cleanupTelemetry sid s) = continuations s"
  "flushInProgress (cleanupTelemetry sid s) = flushInProgress s"
  "getSession (cleanupTelemetry sid s) = getSession s"
  by (simp_all add: cleanupTelemetry_def getSession_def)

lemma sessions_updateSession_keys [simp]:
  "map fst (sessions (updateSession sid f s)) = map fst (sessions s)"
  by (simp add: updateSession_def comp_def)






lemma grows_same:
  "flushInProgress s' = flushInProgress s \<Longrightarrow> map fst (sessions s') = map fst (sessions s) \<Longrightarrow>
   continuations s' = continuations s \<Longrightarrow> grows s s'"
  by (simp add: grows_def)







lemma registryStepI:
  "keeps E s s' \<Longrightarrow> awaitersInFlight s' \<Longrightarrow> map fst (sessions s') = map fst (sessions s) \<Longrightarrow>
   registryStep E s s'"
  by (simp add: registryStep_def)










































lemma map_of_setEntry:
  "map_of (setEntry sid v es) sid' = (if sid' = sid then Some v else map_of es sid')"
  by (induction es) auto














section \<open>Starting a recording\<close>

text \<open>
  Claim C3, as the code has it. \<open>handleStartRecording\<close> does not look for a session of
  the tab. It fails exactly when the stream id, the offscreen document or the send of
  \<open>INIT_MEDIA_CAPTURE\<close> fails. Once the first two have succeeded it registers an idle
  session under the id made of the tab and the start time and points the reverse index
  of the tab at it, and leaves every other session as it is; before that it changes
  nothing.
\<close>

theorem handleStartRecording_unguarded:
  "fst (handleStartRecording tab audio microphone now streamIdOk offscreenOk cdpOk sendOk s)
     = (if streamIdOk \<and> offscreenOk \<and> sendOk then Some (intToString tab @ ''-'' @ intToString now)
        else None)
   \<and> (streamIdOk \<and> offscreenOk \<longrightarrow>
        (\<exists>session.
            getSession (snd (handleStartRecording tab audio microphone now streamIdOk offscreenOk cdpOk sendOk s))
              (intToString tab @ ''-'' @ intToString now) = Some session
            \<and> status session = Idle \<and> tabId session = tab \<and> sessionStartTime session = now)
        \<and> tabIdToSessionId
             (snd (handleStartRecording tab audio microphone now streamIdOk offscreenOk cdpOk sendOk s)) tab
            = Some (intToString tab @ ''-'' @ intToString now)
        \<and> (\<forall>sid. sid \<noteq> intToString tab @ ''-'' @ intToString now \<longrightarrow>
              getSession (snd (handleStartRecording tab audio microphone now streamIdOk offscreenOk cdpOk sendOk s)) sid
                = getSession s sid))
   \<and> (\<not> (streamIdOk \<and> offscreenOk) \<longrightarrow>
        snd (handleStartRecording tab audio microphone now streamIdOk offscreenOk cdpOk sendOk s) = s)"
  by (auto simp: handleStartRecording_def Let_def getSession_def map_of_setEntry)

text \<open>
  Claim C3 as stated fails: with a recording session of tab 1 in the registry, a second
  start for tab 1 succeeds and registers a second session of the tab.
\<close>

theorem start_while_recording:
  "map_option (\<lambda>p. (fst p, status (snd p))) (recordingSession recordingExample 1)
     = Some (''1-1000'', Recording)
   \<and> fst (handleStartRecording 1 True False 2000 True True True True recordingExample) = Some ''1-2000''
   \<and> map (\<lambda>e. (fst e, tabId (snd e), status (snd e)))
       (sessions (snd (handleStartRecording 1 True False 2000 True True True True recordingExample)))
       = [(''1-1000'', 1, Recording), (''1-2000'', 1, Idle)]"
  by code_simp

theorem handleStartRecording_unguarded_witness:
  "fst (handleStartRecording 1 True False 2000 True True True True recordingExample) = Some ''1-2000''
   \<and> (\<exists>session.
         getSession (snd (handleStartRecording 1 True False 2000 True True True True recordingExample))
           ''1-2000'' = Some session
         \<and> status session = Idle \<and> tabId session = 1 \<and> sessionStartTime session = 2000)
   \<and> tabIdToSessionId (snd (handleStartRecording 1 True False 2000 True True True True recordingExample)) 1
       = Some ''1-2000''
   \<and> getSession (snd (handleStartRecording 1 True False 2000 True True True True recordingExample))
        ''1-1000'' = getSession recordingExample ''1-1000''"
proof -
  have i: "intToString 1 @ CHR ''-'' # intToString 2000 = ''1-2000''" by code_simp
  show ?thesis
    using handleStartRecording_unguarded
      [of 1 True False 2000 True True True True recordingExample]
    by (simp add: i)
qed

section \<open>The final flush\<close>

lemma stoppedAfterFlush_fields [simp]:
  "indexedDB (stoppedAfterFlush sid s) = indexedDB s"
  "flushInProgress (stoppedAfterFlush sid s) = flushInProgress s"
  by (simp_all add: stoppedAfterFlush_def stoppedTeardown_def cleanupTelemetry_def
      split: option.splits)

lemma finishFlush_one_awaiter:
  assumes "continuations s = [StoppedAwaitsFlush sid]"
  shows "finishFlush sid now s
     = stoppedAfterFlush sid
         (ttlCleanup sid now s\<lparr>flushInProgress := (flushInProgress s)(sid := None), continuations := []\<rparr>)"
  using assms by (simp add: finishFlush_def settleAwaiters_def awaitsFlush_def Let_def)

text \<open>
  Without a flush under way when \<open>handleMediaStopped\<close> reaches its final flush, and
  with no other handler suspended, the final flush writes what the three buffers hold:
  after its writes settled with success the store is \<open>flushedStore\<close>, and no flush
  is under way.
\<close>

lemma final_flush_without_flush_in_flight:
  assumes idle: "flushInProgress s sid = None" and alone: "continuations s = []"
  shows "indexedDB (settled3 sid n1 n2 n3 (stoppedAfterSend sid n0 s)) = flushedStore sid s
     \<and> flushInProgress (settled3 sid n1 n2 n3 (stoppedAfterSend sid n0 s)) sid = None"
proof -
  define ns where "ns = takenFrom (networkEventBuffers s sid)"
  define cs where "cs = takenFrom (consoleEventBuffers s sid)"
  define ds where "ds = takenFrom (domEventBuffers s sid)"
  note d = ns_def [symmetric] cs_def [symmetric] ds_def [symmetric]
  have q: "nobodyAwaits sid s"
    using alone by (simp add: nobodyAwaits_def)
  show ?thesis
    by (cases "ns = []"; cases "cs = []"; cases "ds = []")
      (use idle alone q in \<open>simp_all add: stoppedAfterSend_def flush_unfold d flushedStore_def
         finishFlush_one_awaiter\<close>)
qed

text \<open>
  Claim C6 on the run \<open>lostEventTrace\<close>. Two network events were accepted and counted.
  When \<open>MEDIA_STOPPED\<close> arrives, the flush of the timer is suspended at its network
  write and the second event sits in the buffer. The final flush of
  \<open>handleMediaStopped\<close> finds that flush under way and only waits for it; the teardown
  then deletes the buffer. The session ends as completed with a count of 2 and with one
  stored event.
\<close>

theorem final_flush_joins_flush_in_flight:
  "map (\<lambda>e. (fst e, status (snd e), networkEventCount (snd e))) (sessions (run lostEventTrace initial))
     = [(''1-1000'', Completed, 2)]
   \<and> map_option (map requestId) (networkEventBuffers (run (take 9 lostEventTrace) initial) ''1-1000'')
       = Some [''r2'']
   \<and> map_option stage (flushInProgress (run (take 9 lostEventTrace) initial) ''1-1000'')
       = Some NetworkWrite
   \<and> continuations (run (take 10 lostEventTrace) initial) = [StoppedAwaitsFlush ''1-1000'']
   \<and> networkEventBuffers (run lostEventTrace initial) ''1-1000'' = None
   \<and> flushInProgress (run lostEventTrace initial) ''1-1000'' = None
   \<and> continuations (run lostEventTrace initial) = []
   \<and> map fst (indexedDB (run lostEventTrace initial)) = [''1-1000:network:batch:0'']
   \<and> map requestId (getNetworkEvents ''1-1000'' (indexedDB (run lostEventTrace initial))) = [''r1'']"
  by code_simp

end
